theory Spec2Isabelle
  imports Main
begin

section \<open>Data model\<close>

text \<open>
  The route functions of \<^verbatim>\<open>app/routes/clients.py\<close>, \<^verbatim>\<open>leads.py\<close> and \<^verbatim>\<open>projects.py\<close>
  work on rows of a relational store through an ORM session. A table is the list of its
  rows, a nullable column is an \<open>option\<close> (\<open>None\<close> is SQL NULL), a \<^verbatim>\<open>datetime\<close> is a
  number of seconds. A comparison with NULL is not true, so
  \<^verbatim>\<open>Client.assigned_to == user.id\<close> is \<open>assigned_to c = Some (user_id u)\<close>.
\<close>

type_synonym timestamp = int

text \<open>\<^verbatim>\<open>timedelta(days=n)\<close>\<close>

definition days :: "int \<Rightarrow> int" where
  "days n = n * 86400"

text \<open>
  A JSON value of a request body (arrays, objects and fractions are left out). A column
  written with \<^verbatim>\<open>setattr\<close> holds the value as it was sent; \<open>JNull\<close> is NULL.
\<close>

datatype json = JNull | JBool bool | JInt int | JStr string

text \<open>Python's truth value of a JSON value: \<^verbatim>\<open>None\<close>, \<^verbatim>\<open>False\<close>, \<^verbatim>\<open>0\<close> and \<^verbatim>\<open>""\<close> are false.\<close>

fun truthy :: "json \<Rightarrow> bool" where
  "truthy JNull = False"
| "truthy (JBool b) = b"
| "truthy (JInt n) = (n \<noteq> 0)"
| "truthy (JStr s) = (s \<noteq> [])"

text \<open>The body of a request: a JSON object, a key is absent (\<open>None\<close>) or has a value.\<close>

type_synonym json_object = "string \<Rightarrow> json option"

text \<open>
  Modelled from the spec: the columns of the tables (\<^verbatim>\<open>app/models.py\<close> is not among the
  sources). Section 3 of the specification names the columns and says which are nullable;
  the routes fix their names. The text columns of a Client or Lead (name, contact fields,
  address fields, notes) are one map from column name to value, and so are the columns of
  a Project that \<^verbatim>\<open>update_project\<close> writes with \<^verbatim>\<open>setattr\<close>.
\<close>

record user =
  user_id :: int
  user_tenant_id :: int
  user_email :: string
  user_is_active :: bool
  user_roles :: "string list"

record entity =
  ent_id :: int
  tenant_id :: int
  text_cols :: "string \<Rightarrow> json"
  created_by :: int
  assigned_to :: "int option"
  created_at :: timestamp
  updated_by :: "int option"
  updated_at :: "timestamp option"
  deleted_at :: "timestamp option"
  deleted_by :: "int option"

type_synonym client = entity

record lead = entity +
  lead_status :: "string option"
  converted_on :: "timestamp option"

record interaction =
  int_id :: int
  int_client_id :: "int option"
  int_lead_id :: "int option"
  contact_date :: timestamp

record project =
  project_id :: int
  project_tenant_id :: int
  project_created_by :: int
  project_created_at :: timestamp
  project_status :: json
  project_start :: "timestamp option"
  project_end :: "timestamp option"
  project_cols :: "string \<Rightarrow> json"

record activity_log =
  log_tenant_id :: int
  log_user_id :: int
  log_action :: string
  log_entity_type :: string
  log_entity_id :: int

text \<open>
  The engine behind \<^verbatim>\<open>SessionLocal\<close> is configured in \<^verbatim>\<open>app/database.py\<close>, which is not part
  of the sources. Engines differ in what they do with a negative OFFSET or LIMIT: some
  reject the statement, others read a negative OFFSET as 0 and a negative LIMIT as no
  limit. The store carries which of the two it does, so that nothing below depends on the
  choice.
\<close>

datatype negative_paging = Rejected | Ignored

record db =
  clients :: "client list"
  leads :: "lead list"
  users :: "user list"
  interactions :: "interaction list"
  projects :: "project list"
  activity_logs :: "activity_log list"
  on_negative :: negative_paging

text \<open>
  A route returns a JSON body with a status, or an exception leaves it. An error body
  \<^verbatim>\<open>jsonify({"error": msg}), code\<close> is \<open>ErrorResponse code msg\<close>; an exception that no
  handler of the route catches is \<open>Raised\<close>. A route that fails before
  \<^verbatim>\<open>session.commit()\<close> leaves the store as it was (\<^verbatim>\<open>finally: session.close()\<close> drops the
  pending writes). \<open>StoreError\<close> stands for the exception with which a statement that the
  store or its driver does not accept leaves \<^verbatim>\<open>query.count()\<close> or \<^verbatim>\<open>query.all()\<close>; its Python
  class is the engine's or the driver's.
\<close>

datatype exn = ValueError | TypeError | NotificationError | StoreError

datatype failure = ErrorResponse nat string | Raised exn

section \<open>Query building blocks\<close>

text \<open>
  The filter clauses the Client and Lead routes repeat. \<open>live_in_tenant\<close> is
  \<^verbatim>\<open>tenant_id == user.tenant_id, deleted_at == None\<close>; \<open>default_owner\<close> is the clause of the
  default list,
  \<^verbatim>\<open>or_(assigned_to == user.id, and_(assigned_to == None, created_by == user.id))\<close>;
  \<open>creator_or_assignee\<close> is \<^verbatim>\<open>or_(created_by == user.id, assigned_to == user.id)\<close>.
\<close>

definition live_in_tenant :: "user \<Rightarrow> 'a entity_scheme \<Rightarrow> bool" where
  "live_in_tenant u e \<longleftrightarrow> tenant_id e = user_tenant_id u \<and> deleted_at e = None"

definition default_owner :: "user \<Rightarrow> 'a entity_scheme \<Rightarrow> bool" where
  "default_owner u e \<longleftrightarrow>
     assigned_to e = Some (user_id u) \<or> (assigned_to e = None \<and> created_by e = user_id u)"

definition creator_or_assignee :: "user \<Rightarrow> 'a entity_scheme \<Rightarrow> bool" where
  "creator_or_assignee u e \<longleftrightarrow> created_by e = user_id u \<or> assigned_to e = Some (user_id u)"

text \<open>\<^verbatim>\<open>any(role.name == "admin" for role in user.roles)\<close>\<close>

definition is_admin :: "user \<Rightarrow> bool" where
  "is_admin u = list_ex (\<lambda>r. r = ''admin'') (user_roles u)"

text \<open>
  \<^verbatim>\<open>session.commit()\<close> after attribute writes on a loaded row issues an UPDATE keyed by
  the primary key. The store's own checks at commit (constraints declared in the absent
  models) are not modelled: a commit succeeds.
\<close>

definition commit_row :: "'a entity_scheme \<Rightarrow> 'a entity_scheme list \<Rightarrow> 'a entity_scheme list" where
  "commit_row r rows = map (\<lambda>x. if ent_id x = ent_id r then r else x) rows"

text \<open>\<^verbatim>\<open>query.first()\<close>: the first row of the result, or \<^verbatim>\<open>None\<close>.\<close>

definition first :: "'a list \<Rightarrow> 'a option" where
  "first rows = (case rows of [] \<Rightarrow> None | r # _ \<Rightarrow> Some r)"

text \<open>The relationships \<^verbatim>\<open>assigned_user\<close> and \<^verbatim>\<open>created_by_user\<close>: the user row of an id.\<close>

definition user_of :: "user list \<Rightarrow> int option \<Rightarrow> user option" where
  "user_of us i = (case i of None \<Rightarrow> None | Some k \<Rightarrow> find (\<lambda>x. user_id x = k) us)"

text \<open>
  \<^verbatim>\<open>assigned_user.email if assigned_user else created_by_user.email if created_by_user
  else None\<close>
\<close>

definition assigned_to_name_of :: "user list \<Rightarrow> 'a entity_scheme \<Rightarrow> string option" where
  "assigned_to_name_of us e =
     (case user_of us (assigned_to e) of
        Some a \<Rightarrow> Some (user_email a)
      | None \<Rightarrow> map_option user_email (user_of us (Some (created_by e))))"

definition created_by_name_of :: "user list \<Rightarrow> 'a entity_scheme \<Rightarrow> string option" where
  "created_by_name_of us e = map_option user_email (user_of us (Some (created_by e)))"

text \<open>An inner and a left outer join of two row lists on a condition.\<close>

definition join :: "('a \<Rightarrow> 'b \<Rightarrow> bool) \<Rightarrow> 'a list \<Rightarrow> 'b list \<Rightarrow> ('a \<times> 'b) list" where
  "join on xs ys = concat (map (\<lambda>x. map (\<lambda>y. (x, y)) (filter (on x) ys)) xs)"

definition outerjoin :: "('a \<Rightarrow> 'b \<Rightarrow> bool) \<Rightarrow> 'a list \<Rightarrow> 'b list \<Rightarrow> ('a \<times> 'b option) list" where
  "outerjoin on xs ys =
     concat (map (\<lambda>x. case filter (on x) ys of
                         [] \<Rightarrow> [(x, None)]
                       | m # ms \<Rightarrow> map (\<lambda>y. (x, Some y)) (m # ms)) xs)"

text \<open>\<^verbatim>\<open>func.max\<close> over a group: NULL for the empty group.\<close>

fun max_opt :: "timestamp list \<Rightarrow> timestamp option" where
  "max_opt [] = None"
| "max_opt (x # xs) = (case max_opt xs of None \<Rightarrow> Some x | Some m \<Rightarrow> Some (max x m))"

text \<open>
  ORDER BY: a stable insertion sort by a comparison \<open>le a b\<close>, "\<open>a\<close> may stand before
  \<open>b\<close>". The order among rows that compare equal is the store's choice; here they keep
  the order of the table.
\<close>

fun insort_by :: "('a \<Rightarrow> 'a \<Rightarrow> bool) \<Rightarrow> 'a \<Rightarrow> 'a list \<Rightarrow> 'a list" where
  "insort_by le x [] = [x]"
| "insort_by le x (y # ys) = (if le x y then x # y # ys else y # insort_by le x ys)"

definition order_by :: "('a \<Rightarrow> 'a \<Rightarrow> bool) \<Rightarrow> 'a list \<Rightarrow> 'a list" where
  "order_by le xs = foldr (insort_by le) xs []"

text \<open>
  Modelled from the spec: where the store places NULL among sort keys (the engine is
  configured in \<^verbatim>\<open>app/database.py\<close>, which is not among the sources, and the routes write
  no NULLS FIRST or NULLS LAST). Section 4.3 of the specification: a missing key is
  "treated as the minimum possible value".
\<close>

definition null_lowest_le :: "('a \<Rightarrow> 'a \<Rightarrow> bool) \<Rightarrow> 'a option \<Rightarrow> 'a option \<Rightarrow> bool" where
  "null_lowest_le le a b =
     (case a of None \<Rightarrow> True | Some x \<Rightarrow> (case b of None \<Rightarrow> False | Some y \<Rightarrow> le x y))"

text \<open>Strings compare by character code, position by position.\<close>

fun str_le :: "string \<Rightarrow> string \<Rightarrow> bool" where
  "str_le [] ys = True"
| "str_le (x # xs) [] = False"
| "str_le (x # xs) (y # ys) =
     ((of_char x :: nat) < of_char y \<or> (x = y \<and> str_le xs ys))"

definition name_key :: "'a entity_scheme \<Rightarrow> string option" where
  "name_key e = (case text_cols e ''name'' of JStr s \<Rightarrow> Some s | _ \<Rightarrow> None)"

text \<open>
  \<^verbatim>\<open>query.offset(off).limit(lim).all()\<close>. OFFSET and LIMIT are 64-bit signed integers of the
  store: a Python integer outside that range is refused when the statement is run. A
  negative OFFSET or LIMIT within the range is refused as well, or, where the engine
  ignores it, a negative OFFSET skips no row and a negative LIMIT bounds nothing.
\<close>

definition int64_max :: int where
  "int64_max = 9223372036854775807"

definition in_int64 :: "int \<Rightarrow> bool" where
  "in_int64 n \<longleftrightarrow> - int64_max - 1 \<le> n \<and> n \<le> int64_max"

definition offset_limit :: "negative_paging \<Rightarrow> int \<Rightarrow> int \<Rightarrow> 'a list \<Rightarrow> exn + 'a list" where
  "offset_limit neg off lim rows =
     (if \<not> in_int64 off \<or> \<not> in_int64 lim then Inl StoreError
      else if (off < 0 \<or> lim < 0) \<and> neg = Rejected then Inl StoreError
      else Inr (if lim < 0 then drop (nat off) rows
                else take (nat lim) (drop (nat off) rows)))"

section \<open>Request arguments\<close>

text \<open>
  \<^verbatim>\<open>int(s)\<close> of a string: surrounding whitespace is dropped, then an optional sign and
  decimal digits, single underscores allowed between digits; anything else raises
  \<^verbatim>\<open>ValueError\<close>, and so does a numeral of more than 4300 digits (the interpreter's limit
  for the conversion). A character is its code point, below 256. The blanks that
  \<^verbatim>\<open>int\<close> drops are tab, line feed, vertical tab, form feed, carriage return and space,
  and beyond ASCII the next-line and the no-break space characters (133 and 160); the
  separators 28 to 31, which \<^verbatim>\<open>str.strip\<close> removes, are not among them. No code point
  below 256 other than \<open>0\<close> to \<open>9\<close> is a decimal digit.
\<close>

definition is_space :: "char \<Rightarrow> bool" where
  "is_space c \<longleftrightarrow> (of_char c :: nat) \<in> {9, 10, 11, 12, 13, 32, 133, 160}"

definition is_digit :: "char \<Rightarrow> bool" where
  "is_digit c \<longleftrightarrow> 48 \<le> (of_char c :: nat) \<and> (of_char c :: nat) \<le> 57"

definition digit_val :: "char \<Rightarrow> nat" where
  "digit_val c = of_char c - 48"

fun parse_digits :: "nat \<Rightarrow> string \<Rightarrow> nat option" where
  "parse_digits acc [] = Some acc"
| "parse_digits acc (c # cs) =
     (if is_digit c then parse_digits (10 * acc + digit_val c) cs
      else if c = CHR ''_'' \<and> cs \<noteq> [] \<and> is_digit (hd cs) then parse_digits acc cs
      else None)"

definition strip :: "string \<Rightarrow> string" where
  "strip s = rev (dropWhile is_space (rev (dropWhile is_space s)))"

definition py_int :: "string \<Rightarrow> exn + int" where
  "py_int s =
     (let t = strip s;
          neg = (t \<noteq> [] \<and> hd t = CHR ''-'');
          body = (if t \<noteq> [] \<and> (hd t = CHR ''-'' \<or> hd t = CHR ''+'') then tl t else t)
      in if body \<noteq> [] \<and> is_digit (hd body) then
           (case parse_digits 0 body of
              None \<Rightarrow> Inl ValueError
            | Some n \<Rightarrow>
                if length (filter is_digit body) > 4300 then Inl ValueError
                else Inr (if neg then - int n else int n))
         else Inl ValueError)"

text \<open>\<^verbatim>\<open>request.args\<close>: the query string, each parameter absent or a string.\<close>

type_synonym query_args = "string \<Rightarrow> string option"

text \<open>\<^verbatim>\<open>int(request.args.get(key, default))\<close>\<close>

definition int_arg :: "query_args \<Rightarrow> string \<Rightarrow> int \<Rightarrow> exn + int" where
  "int_arg args k dflt = (case args k of None \<Rightarrow> Inr dflt | Some s \<Rightarrow> py_int s)"

text \<open>\<^verbatim>\<open>request.args.get(key, default)\<close>\<close>

definition str_arg :: "query_args \<Rightarrow> string \<Rightarrow> string \<Rightarrow> string" where
  "str_arg args k dflt = (case args k of None \<Rightarrow> dflt | Some s \<Rightarrow> s)"

section \<open>Clients: lists\<close>

text \<open>
  The activity filter of \<^verbatim>\<open>list_clients\<close> and \<^verbatim>\<open>list_all_clients\<close> on the rows of the base
  query. \<open>active\<close> joins the interactions, keeps the pairs with a contact in the last 30
  days and makes the clients distinct; \<open>inactive\<close> outer-joins the distinct client ids that
  have a contact in the last 90 days and keeps the clients without a partner; \<open>new\<close>
  looks at \<^verbatim>\<open>created_at\<close> alone; any other keyword changes nothing.
\<close>

definition recent_interaction_clients :: "interaction list \<Rightarrow> timestamp \<Rightarrow> int option list" where
  "recent_interaction_clients intrs ninety_days_ago =
     remdups (map int_client_id
       (filter (\<lambda>i. int_client_id i \<noteq> None \<and> contact_date i \<ge> ninety_days_ago) intrs))"

definition apply_activity_filter ::
  "interaction list \<Rightarrow> timestamp \<Rightarrow> string \<Rightarrow> client list \<Rightarrow> client list" where
  "apply_activity_filter intrs now act rows =
     (if act = ''active'' then
        (let thirty_days_ago = now - days 30
         in remdups (map fst
              (filter (\<lambda>(c, i). contact_date i \<ge> thirty_days_ago)
                 (join (\<lambda>c i. Some (ent_id c) = int_client_id i) rows intrs))))
      else if act = ''inactive'' then
        (let ninety_days_ago = now - days 90
         in map fst
              (filter (\<lambda>(c, m). (case m of None \<Rightarrow> None | Some cid \<Rightarrow> cid) = None)
                 (outerjoin (\<lambda>c cid. Some (ent_id c) = cid) rows
                    (recent_interaction_clients intrs ninety_days_ago))))
      else if act = ''new'' then
        (let seven_days_ago = now - days 7
         in filter (\<lambda>c. created_at c \<ge> seven_days_ago) rows)
      else rows)"

text \<open>
  \<^verbatim>\<open>func.max(Interaction.contact_date)\<close> of the group of a client in
  \<^verbatim>\<open>outerjoin(Interaction, Client.id == Interaction.client_id).group_by(Client.id)\<close>:
  \<^verbatim>\<open>Client.id\<close> is the primary key, so a group is one client with the interactions that
  point to it, and a client without any has the key NULL and stays in the result.
\<close>

definition last_contact :: "interaction list \<Rightarrow> client \<Rightarrow> timestamp option" where
  "last_contact intrs c =
     max_opt (map contact_date (filter (\<lambda>i. int_client_id i = Some (ent_id c)) intrs))"

text \<open>
  The sort of the two client lists. The route has replaced an unknown keyword by
  \<open>newest\<close> before. The \<open>activity\<close> sort joins the interactions on its own; a request that
  has joined them for the \<open>active\<close> filter already does not reach the store's sort, see
  \<open>joined_tables\<close> below.
\<close>

definition apply_sort :: "interaction list \<Rightarrow> string \<Rightarrow> client list \<Rightarrow> client list" where
  "apply_sort intrs sort_ord rows =
     (if sort_ord = ''newest'' then order_by (\<lambda>a b. created_at a \<ge> created_at b) rows
      else if sort_ord = ''oldest'' then order_by (\<lambda>a b. created_at a \<le> created_at b) rows
      else if sort_ord = ''alphabetical'' then
        order_by (\<lambda>a b. null_lowest_le str_le (name_key a) (name_key b)) rows
      else if sort_ord = ''activity'' then
        order_by (\<lambda>a b. null_lowest_le (\<le>) (last_contact intrs b) (last_contact intrs a)) rows
      else rows)"

text \<open>
  The statistics query: \<^verbatim>\<open>interaction_stats[client_id] = {count, max(contact_date)}\<close> for
  the clients of the page that have interactions; the dictionary stays empty when the
  page is empty.
\<close>

definition interaction_stats ::
  "interaction list \<Rightarrow> int list \<Rightarrow> int \<Rightarrow> (nat \<times> timestamp option) option" where
  "interaction_stats intrs client_ids =
     (if client_ids = [] then (\<lambda>k. None)
      else (\<lambda>k. let grp = filter (\<lambda>i. int_client_id i = Some k) intrs
                in if k \<in> set client_ids \<and> grp \<noteq> []
                   then Some (length grp, max_opt (map contact_date grp)) else None))"

record client_item =
  item_client :: client
  assigned_to_name :: "string option"
  interaction_count :: nat
  last_interaction_date :: "timestamp option"

record client_item_all = client_item +
  created_by_name :: "string option"

record 'i client_page =
  page_items :: "'i list"
  total :: nat
  page :: int
  per_page :: int
  sort_order :: string
  activity_filter :: string

record 'i client_page_all = "'i client_page" +
  user_email_filter :: "string option"

definition decorate ::
  "user list \<Rightarrow> (int \<Rightarrow> (nat \<times> timestamp option) option) \<Rightarrow> client \<Rightarrow> client_item" where
  "decorate us stats c =
     \<lparr>item_client = c,
      assigned_to_name = assigned_to_name_of us c,
      interaction_count = (case stats (ent_id c) of None \<Rightarrow> 0 | Some s \<Rightarrow> fst s),
      last_interaction_date = (case stats (ent_id c) of None \<Rightarrow> None | Some s \<Rightarrow> snd s)\<rparr>"

text \<open>
  The tables that the activity filter and the sort add to the FROM clause of the client
  query, in the order of the calls: \<^verbatim>\<open>query.join(Interaction, ...)\<close> of the \<open>active\<close> filter
  and \<^verbatim>\<open>query.outerjoin(Interaction, ...)\<close> of the \<open>activity\<close> sort both add \<open>interactions\<close>
  under its own name; the subquery that the \<open>inactive\<close> filter joins has a name of its own.
  A statement that names a table twice is refused by the store when it is run, by
  \<^verbatim>\<open>query.count()\<close> first.
\<close>

definition joined_tables :: "string \<Rightarrow> string \<Rightarrow> string list" where
  "joined_tables sort_ord act =
     (if act = ''active'' then [''interactions'']
      else if act = ''inactive'' then [''anon_1''] else []) @
     (if sort_ord = ''activity'' then [''interactions''] else [])"

text \<open>The rows of the default client list before OFFSET and LIMIT; \<^verbatim>\<open>total\<close> counts them.\<close>

definition client_query ::
  "db \<Rightarrow> user \<Rightarrow> timestamp \<Rightarrow> string \<Rightarrow> string \<Rightarrow> exn + client list" where
  "client_query d u now sort_ord act =
     (if \<not> distinct (joined_tables sort_ord act) then Inl StoreError
      else Inr (apply_sort (interactions d) sort_ord
                  (apply_activity_filter (interactions d) now act
                     (filter (\<lambda>c. live_in_tenant u c \<and> default_owner u c) (clients d)))))"

text \<open>\<^verbatim>\<open>list_clients\<close> from the composed query on: count, page, statistics, response.\<close>

definition list_clients_page ::
  "db \<Rightarrow> user \<Rightarrow> timestamp \<Rightarrow> int \<Rightarrow> int \<Rightarrow> string \<Rightarrow> string
     \<Rightarrow> failure + client_item client_page" where
  "list_clients_page d u now pg pp sort_ord act =
     (case client_query d u now sort_ord act of
        Inl e \<Rightarrow> Inl (Raised e)
      | Inr query \<Rightarrow>
          (case offset_limit (on_negative d) ((pg - 1) * pp) pp query of
             Inl e \<Rightarrow> Inl (Raised e)
           | Inr cs \<Rightarrow>
               (let stats = interaction_stats (interactions d) (map ent_id cs)
                in Inr \<lparr>page_items = map (decorate (users d) stats) cs,
                        total = length query,
                        page = pg, per_page = pp,
                        sort_order = sort_ord, activity_filter = act\<rparr>)))"

definition valid_sort :: "string \<Rightarrow> string" where
  "valid_sort s =
     (if s \<notin> set [''newest'', ''oldest'', ''alphabetical'', ''activity''] then ''newest'' else s)"

definition list_clients ::
  "db \<Rightarrow> user \<Rightarrow> query_args \<Rightarrow> timestamp \<Rightarrow> failure + client_item client_page" where
  "list_clients d u args now =
     (case int_arg args ''page'' 1 of
        Inl e \<Rightarrow> Inl (Raised e)
      | Inr pg \<Rightarrow>
          (case int_arg args ''per_page'' 20 of
             Inl e \<Rightarrow> Inl (Raised e)
           | Inr pp \<Rightarrow>
               list_clients_page d u now pg pp
                 (valid_sort (str_arg args ''sort'' ''newest''))
                 (str_arg args ''activity_filter'' ''all'')))"

text \<open>
  \<^verbatim>\<open>list_all_clients\<close> (admins): every live client of the tenant, optionally those whose
  assignee or creator has the e-mail address \<^verbatim>\<open>user_email\<close>.
\<close>

definition has_email :: "user list \<Rightarrow> int option \<Rightarrow> string \<Rightarrow> bool" where
  "has_email us i e = list_ex (\<lambda>x. Some (user_id x) = i \<and> user_email x = e) us"

definition all_client_query ::
  "db \<Rightarrow> user \<Rightarrow> timestamp \<Rightarrow> string \<Rightarrow> string \<Rightarrow> string option \<Rightarrow> exn + client list" where
  "all_client_query d u now sort_ord act email_arg =
     (if \<not> distinct (joined_tables sort_ord act) then Inl StoreError
      else Inr (apply_sort (interactions d) sort_ord
                  (apply_activity_filter (interactions d) now act
                     (filter (\<lambda>c. (case email_arg of
                                      None \<Rightarrow> True
                                    | Some e \<Rightarrow> e = [] \<or> has_email (users d) (assigned_to c) e
                                                 \<or> has_email (users d) (Some (created_by c)) e))
                        (filter (live_in_tenant u) (clients d))))))"

definition list_all_clients ::
  "db \<Rightarrow> user \<Rightarrow> query_args \<Rightarrow> timestamp \<Rightarrow> failure + client_item_all client_page_all" where
  "list_all_clients d u args now =
     (case int_arg args ''page'' 1 of
        Inl e \<Rightarrow> Inl (Raised e)
      | Inr pg \<Rightarrow>
          (case int_arg args ''per_page'' 20 of
             Inl e \<Rightarrow> Inl (Raised e)
           | Inr pp \<Rightarrow>
               (let sort_ord = valid_sort (str_arg args ''sort'' ''newest'');
                    act = str_arg args ''activity_filter'' ''all''
                in case all_client_query d u now sort_ord act (args ''user_email'') of
                     Inl e \<Rightarrow> Inl (Raised e)
                   | Inr query \<Rightarrow>
                       (case offset_limit (on_negative d) ((pg - 1) * pp) pp query of
                          Inl e \<Rightarrow> Inl (Raised e)
                        | Inr cs \<Rightarrow>
                            (let stats = interaction_stats (interactions d) (map ent_id cs)
                             in Inr \<lparr>page_items =
                                       map (\<lambda>c. client_item.extend (decorate (users d) stats c)
                                              (client_item_all.fields
                                                 (created_by_name_of (users d) c))) cs,
                                     total = length query,
                                     page = pg, per_page = pp,
                                     sort_order = sort_ord, activity_filter = act,
                                     user_email_filter = args ''user_email''\<rparr>)))))"

text \<open>\<^verbatim>\<open>list_assigned_clients\<close>: the live clients of the tenant assigned to the caller.\<close>

definition list_assigned_clients :: "db \<Rightarrow> user \<Rightarrow> (client \<times> string option) list" where
  "list_assigned_clients d u =
     map (\<lambda>c. (c, map_option user_email (user_of (users d) (assigned_to c))))
       (filter (\<lambda>c. tenant_id c = user_tenant_id u \<and> assigned_to c = Some (user_id u)
                     \<and> deleted_at c = None) (clients d))"

section \<open>Leads: update\<close>

definition lead_text_fields :: "string list" where
  "lead_text_fields =
     [''name'', ''contact_person'', ''contact_title'', ''email'', ''phone'', ''phone_label'',
      ''secondary_phone'', ''secondary_phone_label'',
      ''address'', ''city'', ''state'', ''zip'', ''notes'']"

text \<open>\<^verbatim>\<open>data[field] or None\<close>\<close>

definition or_None :: "json \<Rightarrow> json" where
  "or_None v = (if truthy v then v else JNull)"

definition set_text_field :: "json_object \<Rightarrow> lead \<Rightarrow> string \<Rightarrow> lead" where
  "set_text_field data l field =
     (case data field of
        None \<Rightarrow> l
      | Some v \<Rightarrow> l\<lparr>text_cols := (text_cols l)(field := or_None v)\<rparr>)"

definition lead_status_options :: "string list" where
  "lead_status_options = [''open'', ''converted'', ''closed'', ''lost'']"

text \<open>
  The writes of \<^verbatim>\<open>update_lead\<close> on the loaded row, in the order of the source. The two
  readings of the clock in one request are one instant \<open>now\<close>.
\<close>

definition apply_lead_update :: "user \<Rightarrow> json_object \<Rightarrow> timestamp \<Rightarrow> lead \<Rightarrow> lead" where
  "apply_lead_update u data now l =
     (let l1 = foldl (set_text_field data) l lead_text_fields;
          l2 = (case data ''lead_status'' of
                  Some (JStr new_status) \<Rightarrow>
                    if new_status \<in> set lead_status_options then
                      (if new_status = ''converted'' \<and> lead_status l1 \<noteq> Some ''converted''
                       then l1\<lparr>converted_on := Some now\<rparr>
                       else l1)\<lparr>lead_status := Some new_status\<rparr>
                    else l1
                | _ \<Rightarrow> l1)
      in l2\<lparr>updated_by := Some (user_id u), updated_at := Some now\<rparr>)"

definition update_lead ::
  "db \<Rightarrow> user \<Rightarrow> int \<Rightarrow> json_object \<Rightarrow> timestamp \<Rightarrow> (failure + int) \<times> db" where
  "update_lead d u lead_id data now =
     (case first (filter (\<lambda>l. ent_id l = lead_id \<and> tenant_id l = user_tenant_id u \<and>
                               creator_or_assignee u l \<and> deleted_at l = None) (leads d)) of
        None \<Rightarrow> (Inl (ErrorResponse 404 ''Lead not found''), d)
      | Some l \<Rightarrow>
          (let l' = apply_lead_update u data now l
           in (Inr (ent_id l'), d\<lparr>leads := commit_row l' (leads d)\<rparr>)))"

section \<open>Leads: lists\<close>

text \<open>\<^verbatim>\<open>list_leads\<close>: the default list of the caller; it takes no page and no sort.\<close>

definition list_leads :: "db \<Rightarrow> user \<Rightarrow> (lead \<times> string option) list" where
  "list_leads d u =
     map (\<lambda>l. (l, assigned_to_name_of (users d) l))
       (filter (\<lambda>l. tenant_id l = user_tenant_id u \<and> deleted_at l = None \<and> default_owner u l)
          (leads d))"

text \<open>\<^verbatim>\<open>list_all_leads_admin\<close>: each lead with \<^verbatim>\<open>assigned_to_name\<close> and \<^verbatim>\<open>created_by_name\<close>.\<close>

definition list_all_leads_admin :: "db \<Rightarrow> user \<Rightarrow> (lead \<times> string option \<times> string option) list" where
  "list_all_leads_admin d u =
     map (\<lambda>l. (l, assigned_to_name_of (users d) l, created_by_name_of (users d) l))
       (filter (\<lambda>l. tenant_id l = user_tenant_id u \<and> deleted_at l = None) (leads d))"

definition list_assigned_leads :: "db \<Rightarrow> user \<Rightarrow> lead list" where
  "list_assigned_leads d u =
     filter (\<lambda>l. tenant_id l = user_tenant_id u \<and> deleted_at l = None \<and> assigned_to l \<noteq> None)
       (leads d)"

section \<open>Get by id\<close>

text \<open>The \<^verbatim>\<open>ActivityLog\<close> row a successful fetch adds before it commits.\<close>

definition viewed :: "user \<Rightarrow> string \<Rightarrow> int \<Rightarrow> activity_log" where
  "viewed u kind i =
     \<lparr>log_tenant_id = user_tenant_id u, log_user_id = user_id u, log_action = ''viewed'',
      log_entity_type = kind, log_entity_id = i\<rparr>"

definition get_client :: "db \<Rightarrow> user \<Rightarrow> int \<Rightarrow> (failure + client) \<times> db" where
  "get_client d u client_id =
     (let client_query = filter (\<lambda>c. ent_id c = client_id \<and> tenant_id c = user_tenant_id u \<and>
                                      deleted_at c = None) (clients d);
          client_query = (if \<not> is_admin u then filter (creator_or_assignee u) client_query
                          else client_query)
      in case first client_query of
           None \<Rightarrow> (Inl (ErrorResponse 404 ''Client not found''), d)
         | Some c \<Rightarrow>
             (Inr c, d\<lparr>activity_logs := activity_logs d @ [viewed u ''client'' (ent_id c)]\<rparr>))"

definition get_lead :: "db \<Rightarrow> user \<Rightarrow> int \<Rightarrow> (failure + lead) \<times> db" where
  "get_lead d u lead_id =
     (let lead_query = filter (\<lambda>l. ent_id l = lead_id \<and> tenant_id l = user_tenant_id u \<and>
                                    deleted_at l = None) (leads d);
          lead_query = (if \<not> is_admin u then filter (creator_or_assignee u) lead_query
                        else lead_query)
      in case first lead_query of
           None \<Rightarrow> (Inl (ErrorResponse 404 ''Lead not found''), d)
         | Some l \<Rightarrow>
             (Inr l, d\<lparr>activity_logs := activity_logs d @ [viewed u ''lead'' (ent_id l)]\<rparr>))"

section \<open>Assignment\<close>

text \<open>
  The notification collaborator \<^verbatim>\<open>send_assignment_notification\<close> of
  \<^verbatim>\<open>app/utils/email_utils.py\<close> is a parameter of the two routes: for the message it is
  called with, it delivers or it raises.
\<close>

record notification =
  to_email :: string
  entity_type :: string
  entity_name :: json
  assigned_by :: string

datatype delivery = Delivered | Fails

text \<open>
  \<^verbatim>\<open>data.get("assigned_to")\<close> is a JSON integer or missing (\<open>None\<close>, also for null). Python
  takes \<^verbatim>\<open>None\<close> and \<^verbatim>\<open>0\<close> for false.
\<close>

definition truthy_id :: "int option \<Rightarrow> bool" where
  "truthy_id a = (case a of None \<Rightarrow> False | Some n \<Rightarrow> n \<noteq> 0)"

text \<open>
  The user the assignment validates:
  \<^verbatim>\<open>User.id == assigned_to, User.tenant_id == user.tenant_id, User.is_active == True\<close>.
\<close>

definition valid_assignee :: "db \<Rightarrow> user \<Rightarrow> int option \<Rightarrow> user option" where
  "valid_assignee d u a =
     first (filter (\<lambda>x. Some (user_id x) = a \<and> user_tenant_id x = user_tenant_id u \<and>
                         user_is_active x) (users d))"

text \<open>
  \<^verbatim>\<open>assign_client\<close>. The notification is awaited between the attribute writes and
  \<^verbatim>\<open>session.commit()\<close> with no handler around it: when it raises, the exception leaves the
  route, the commit is not reached and \<^verbatim>\<open>session.close()\<close> drops the writes.
\<close>

definition assign_client ::
  "(notification \<Rightarrow> delivery) \<Rightarrow> db \<Rightarrow> user \<Rightarrow> int \<Rightarrow> int option \<Rightarrow> timestamp
     \<Rightarrow> (failure + string) \<times> db" where
  "assign_client send d u client_id a now =
     (if \<not> truthy_id a then (Inl (ErrorResponse 400 ''Missing assigned_to''), d)
      else
        (case first (filter (\<lambda>c. ent_id c = client_id \<and> tenant_id c = user_tenant_id u \<and>
                                  deleted_at c = None) (clients d)) of
           None \<Rightarrow> (Inl (ErrorResponse 404 ''Client not found''), d)
         | Some c \<Rightarrow>
             (case valid_assignee d u a of
                None \<Rightarrow> (Inl (ErrorResponse 400 ''Assigned user not found or inactive''), d)
              | Some assigned_user \<Rightarrow>
                  (let c' = c\<lparr>assigned_to := a, updated_by := Some (user_id u),
                              updated_at := Some now\<rparr>
                   in case send \<lparr>to_email = user_email assigned_user, entity_type = ''client'',
                                  entity_name = text_cols c' ''name'',
                                  assigned_by = user_email u\<rparr> of
                        Fails \<Rightarrow> (Inl (Raised NotificationError), d)
                      | Delivered \<Rightarrow>
                          (Inr ''Client assigned successfully'',
                           d\<lparr>clients := commit_row c' (clients d)\<rparr>)))))"

text \<open>
  \<^verbatim>\<open>assign_lead\<close>. The assignee is validated only when \<^verbatim>\<open>assigned_to\<close> is true for Python;
  the notification is sent inside \<^verbatim>\<open>try ... except Exception\<close>, so both outcomes go on to
  the commit. The text of the 400 body names the id in the source.
\<close>

definition assign_lead ::
  "(notification \<Rightarrow> delivery) \<Rightarrow> db \<Rightarrow> user \<Rightarrow> int \<Rightarrow> int option \<Rightarrow> timestamp
     \<Rightarrow> (failure + string) \<times> db" where
  "assign_lead send d u lead_id a now =
     (case first (filter (\<lambda>l. ent_id l = lead_id \<and> tenant_id l = user_tenant_id u \<and>
                               deleted_at l = None) (leads d)) of
        None \<Rightarrow> (Inl (ErrorResponse 404 ''Lead not found''), d)
      | Some l \<Rightarrow>
          (if truthy_id a \<and> valid_assignee d u a = None
           then (Inl (ErrorResponse 400 ''User not found or not active''), d)
           else
             (let l' = l\<lparr>assigned_to := a, updated_by := Some (user_id u),
                         updated_at := Some now\<rparr>;
                  committed = (Inr ''Lead assigned successfully'',
                               d\<lparr>leads := commit_row l' (leads d)\<rparr>)
              in if truthy_id a then
                   (case user_of (users d) a of
                      None \<Rightarrow> committed
                    | Some assigned_user \<Rightarrow>
                        (case send \<lparr>to_email = user_email assigned_user, entity_type = ''lead'',
                                     entity_name = text_cols l' ''name'',
                                     assigned_by = user_email u\<rparr> of
                           Delivered \<Rightarrow> committed
                         | Fails \<Rightarrow> committed))
                 else committed)))"

section \<open>Projects: get, update, delete by id\<close>

definition get_project :: "db \<Rightarrow> user \<Rightarrow> int \<Rightarrow> (failure + project) \<times> db" where
  "get_project d u pid =
     (case first (filter (\<lambda>p. project_id p = pid \<and> project_tenant_id p = user_tenant_id u)
                    (projects d)) of
        None \<Rightarrow> (Inl (ErrorResponse 404 ''Project not found''), d)
      | Some p \<Rightarrow>
          (Inr p, d\<lparr>activity_logs := activity_logs d @ [viewed u ''project'' (project_id p)]\<rparr>))"

text \<open>
  \<^verbatim>\<open>parse_date_with_default_time\<close>. \<^verbatim>\<open>datetime.fromisoformat\<close> is a parameter: \<open>None\<close> is
  its \<^verbatim>\<open>ValueError\<close>. Called with a value that is not a string it raises \<^verbatim>\<open>TypeError\<close>,
  which the function does not catch.
\<close>

definition parse_date_with_default_time ::
  "(string \<Rightarrow> timestamp option) \<Rightarrow> json \<Rightarrow> exn + timestamp option" where
  "parse_date_with_default_time fromisoformat v =
     (if \<not> truthy v then Inr None
      else (case v of
              JStr s \<Rightarrow>
                (case fromisoformat s of
                   Some t \<Rightarrow> Inr (Some t)
                 | None \<Rightarrow>
                     (case fromisoformat (s @ ''T00:00:00'') of
                        Some t \<Rightarrow> Inr (Some t)
                      | None \<Rightarrow> Inr None))
            | _ \<Rightarrow> Inl TypeError))"

definition project_fields :: "string list" where
  "project_fields =
     [''project_name'', ''type'', ''project_description'', ''project_worth'', ''client_id'',
      ''lead_id'', ''notes'']"

definition set_project_field :: "json_object \<Rightarrow> project \<Rightarrow> string \<Rightarrow> project" where
  "set_project_field data p field =
     (case data field of
        None \<Rightarrow> p
      | Some v \<Rightarrow> p\<lparr>project_cols := (project_cols p)(field := v)\<rparr>)"

text \<open>
  The writes of \<^verbatim>\<open>update_project\<close> on the loaded row. \<^verbatim>\<open>PROJECT_STATUS_OPTIONS\<close> of
  \<^verbatim>\<open>app/constants.py\<close> is the parameter \<open>status_options\<close>.
\<close>

definition apply_project_update ::
  "string list \<Rightarrow> (string \<Rightarrow> timestamp option) \<Rightarrow> json_object \<Rightarrow> project \<Rightarrow> exn + project" where
  "apply_project_update status_options fromisoformat data p =
     (let p1 = foldl (set_project_field data) p project_fields;
          p2 = (case data ''project_status'' of
                  Some (JStr status) \<Rightarrow>
                    if status \<in> set status_options then p1\<lparr>project_status := JStr status\<rparr>
                    else p1
                | _ \<Rightarrow> p1)
      in case (case data ''project_start'' of
                 None \<Rightarrow> Inr p2
               | Some v \<Rightarrow>
                   (case parse_date_with_default_time fromisoformat v of
                      Inl e \<Rightarrow> Inl e
                    | Inr t \<Rightarrow> Inr (p2\<lparr>project_start := t\<rparr>))) of
           Inl e \<Rightarrow> Inl e
         | Inr p3 \<Rightarrow>
             (case data ''project_end'' of
                None \<Rightarrow> Inr p3
              | Some v \<Rightarrow>
                  (case parse_date_with_default_time fromisoformat v of
                     Inl e \<Rightarrow> Inl e
                   | Inr t \<Rightarrow> Inr (p3\<lparr>project_end := t\<rparr>))))"

definition update_project ::
  "string list \<Rightarrow> (string \<Rightarrow> timestamp option) \<Rightarrow> db \<Rightarrow> user \<Rightarrow> int \<Rightarrow> json_object
     \<Rightarrow> (failure + project) \<times> db" where
  "update_project status_options fromisoformat d u pid data =
     (case first (filter (\<lambda>p. project_id p = pid \<and> project_tenant_id p = user_tenant_id u)
                    (projects d)) of
        None \<Rightarrow> (Inl (ErrorResponse 404 ''Project not found''), d)
      | Some p \<Rightarrow>
          (case apply_project_update status_options fromisoformat data p of
             Inl e \<Rightarrow> (Inl (Raised e), d)
           | Inr p' \<Rightarrow>
               (Inr p',
                d\<lparr>projects := map (\<lambda>x. if project_id x = project_id p' then p' else x)
                                 (projects d)\<rparr>)))"

text \<open>\<^verbatim>\<open>session.delete(project)\<close>: the row is removed, no soft delete.\<close>

definition delete_project :: "db \<Rightarrow> user \<Rightarrow> int \<Rightarrow> (failure + string) \<times> db" where
  "delete_project d u pid =
     (case first (filter (\<lambda>p. project_id p = pid \<and> project_tenant_id p = user_tenant_id u)
                    (projects d)) of
        None \<Rightarrow> (Inl (ErrorResponse 404 ''Project not found''), d)
      | Some p \<Rightarrow>
          (Inr ''Project deleted'',
           d\<lparr>projects := filter (\<lambda>x. project_id x \<noteq> project_id p) (projects d)\<rparr>))"

section \<open>Example store\<close>

definition no_cols :: "string \<Rightarrow> json" where
  "no_cols = (\<lambda>k. JNull)"

definition alice :: user where
  "alice = \<lparr>user_id = 1, user_tenant_id = 1, user_email = ''alice@demo.com'',
            user_is_active = True, user_roles = [''user'']\<rparr>"

definition bob :: user where
  "bob = \<lparr>user_id = 2, user_tenant_id = 1, user_email = ''bob@demo.com'',
          user_is_active = True, user_roles = [''user'']\<rparr>"

definition root :: user where
  "root = \<lparr>user_id = 3, user_tenant_id = 1, user_email = ''admin@demo.com'',
           user_is_active = True, user_roles = [''admin'']\<rparr>"

definition lead7 :: lead where
  "lead7 = \<lparr>ent_id = 7, tenant_id = 1, text_cols = no_cols, created_by = 1,
            assigned_to = None, created_at = 100, updated_by = None, updated_at = None,
            deleted_at = None, deleted_by = None,
            lead_status = Some ''open'', converted_on = None\<rparr>"

definition lead8 :: lead where
  "lead8 = \<lparr>ent_id = 8, tenant_id = 1, text_cols = no_cols, created_by = 1,
            assigned_to = None, created_at = 200, updated_by = None, updated_at = None,
            deleted_at = None, deleted_by = None,
            lead_status = Some ''converted'', converted_on = Some 500\<rparr>"

definition carol :: user where
  "carol = \<lparr>user_id = 4, user_tenant_id = 2, user_email = ''carol@other.com'',
            user_is_active = True, user_roles = [''user'']\<rparr>"

definition dave :: user where
  "dave = \<lparr>user_id = 5, user_tenant_id = 1, user_email = ''dave@demo.com'',
           user_is_active = False, user_roles = [''user'']\<rparr>"

text \<open>
  Five clients of tenant 1, all created by alice: \<open>client1\<close> unassigned, with a contact ten
  days before \<open>demo_now\<close>; \<open>client2\<close> assigned to bob, never contacted; \<open>client3\<close>
  soft-deleted; \<open>client4\<close> unassigned, last contacted a hundred days before \<open>demo_now\<close>;
  \<open>client5\<close> unassigned, never contacted.
\<close>

definition demo_now :: timestamp where
  "demo_now = 10000000"

definition client1 :: client where
  "client1 = \<lparr>ent_id = 1, tenant_id = 1, text_cols = no_cols, created_by = 1,
              assigned_to = None, created_at = 100, updated_by = None, updated_at = None,
              deleted_at = None, deleted_by = None\<rparr>"

definition client2 :: client where
  "client2 = \<lparr>ent_id = 2, tenant_id = 1, text_cols = no_cols, created_by = 1,
              assigned_to = Some 2, created_at = 200, updated_by = None, updated_at = None,
              deleted_at = None, deleted_by = None\<rparr>"

definition client3 :: client where
  "client3 = \<lparr>ent_id = 3, tenant_id = 1, text_cols = no_cols, created_by = 1,
              assigned_to = None, created_at = 300, updated_by = None, updated_at = None,
              deleted_at = Some 400, deleted_by = Some 1\<rparr>"

definition client4 :: client where
  "client4 = \<lparr>ent_id = 4, tenant_id = 1, text_cols = no_cols, created_by = 1,
              assigned_to = None, created_at = 400, updated_by = None, updated_at = None,
              deleted_at = None, deleted_by = None\<rparr>"

definition client5 :: client where
  "client5 = \<lparr>ent_id = 5, tenant_id = 1, text_cols = no_cols, created_by = 1,
              assigned_to = None, created_at = 500, updated_by = None, updated_at = None,
              deleted_at = None, deleted_by = None\<rparr>"

definition contact1 :: interaction where
  "contact1 = \<lparr>int_id = 1, int_client_id = Some 1, int_lead_id = None,
               contact_date = 9136000\<rparr>"

definition contact4 :: interaction where
  "contact4 = \<lparr>int_id = 2, int_client_id = Some 4, int_lead_id = None,
               contact_date = 1360000\<rparr>"

definition project1 :: project where
  "project1 = \<lparr>project_id = 1, project_tenant_id = 1, project_created_by = 1,
               project_created_at = 100, project_status = JStr ''pending'',
               project_start = None, project_end = None, project_cols = no_cols\<rparr>"

definition lead9 :: lead where
  "lead9 = \<lparr>ent_id = 9, tenant_id = 1, text_cols = no_cols, created_by = 1,
            assigned_to = None, created_at = 300, updated_by = None, updated_at = None,
            deleted_at = Some 600, deleted_by = Some 1,
            lead_status = Some ''lost'', converted_on = None\<rparr>"

definition demo_db :: db where
  "demo_db = \<lparr>clients = [client1, client2, client3, client4, client5], leads = [lead7, lead8, lead9],
              users = [alice, bob, root, carol, dave],
              interactions = [contact1, contact4], projects = [project1],
              activity_logs = [], on_negative = Rejected\<rparr>"

definition demo_db_lenient :: db where
  "demo_db_lenient = demo_db\<lparr>on_negative := Ignored\<rparr>"

definition demo_fromisoformat :: "string \<Rightarrow> timestamp option" where
  "demo_fromisoformat s = (if s = ''2025-01-01T00:00:00'' then Some 1735689600 else None)"

definition rename_project :: json_object where
  "rename_project =
     (\<lambda>k. if k = ''project_name'' then Some (JStr ''Renamed'')
          else if k = ''project_start'' then Some (JStr ''2025-01-01'') else None)"

definition to_converted :: json_object where
  "to_converted = (\<lambda>k. if k = ''lead_status'' then Some (JStr ''converted'') else None)"

definition no_args :: query_args where
  "no_args = (\<lambda>k. None)"

definition page_abc :: query_args where
  "page_abc = (\<lambda>k. if k = ''page'' then Some ''abc'' else None)"

definition page_zero :: query_args where
  "page_zero = (\<lambda>k. if k = ''page'' then Some ''0'' else None)"

definition page_2_of_1 :: query_args where
  "page_2_of_1 = (\<lambda>k. if k = ''page'' then Some ''2'' else if k = ''per_page'' then Some ''1''
                      else None)"

definition active_by_activity :: query_args where
  "active_by_activity =
     (\<lambda>k. if k = ''activity_filter'' then Some ''active''
          else if k = ''sort'' then Some ''activity'' else None)"

definition active_only :: query_args where
  "active_only = (\<lambda>k. if k = ''activity_filter'' then Some ''active'' else None)"

section \<open>Lemmas\<close>

lemma set_text_field_keeps:
  "lead_status (set_text_field data l f) = lead_status l \<and>
   converted_on (set_text_field data l f) = converted_on l \<and>
   ent_id (set_text_field data l f) = ent_id l"
  by (simp add: set_text_field_def split: option.splits)

lemma foldl_set_text_field_keeps:
  "lead_status (foldl (set_text_field data) l fs) = lead_status l \<and>
   converted_on (foldl (set_text_field data) l fs) = converted_on l \<and>
   ent_id (foldl (set_text_field data) l fs) = ent_id l"
  by (induction fs arbitrary: l) (simp_all add: set_text_field_keeps)

lemma apply_lead_update_id: "ent_id (apply_lead_update u data now l) = ent_id l"
  by (simp add: apply_lead_update_def Let_def foldl_set_text_field_keeps
      split: option.splits json.splits)

lemma apply_lead_update_converted:
  assumes "data ''lead_status'' = Some (JStr ''converted'')"
  shows "lead_status (apply_lead_update u data now l) = Some ''converted''"
    and "lead_status l \<noteq> Some ''converted'' \<Longrightarrow>
           converted_on (apply_lead_update u data now l) = Some now"
    and "lead_status l = Some ''converted'' \<Longrightarrow>
           converted_on (apply_lead_update u data now l) = converted_on l"
  using assms
  by (simp_all add: apply_lead_update_def Let_def foldl_set_text_field_keeps
      lead_status_options_def)

lemma commit_row_member:
  "x \<in> set (commit_row r rows) \<Longrightarrow> ent_id x = ent_id r \<Longrightarrow> x = r"
  by (auto simp: commit_row_def split: if_splits)

lemma commit_row_present:
  "l \<in> set rows \<Longrightarrow> ent_id r = ent_id l \<Longrightarrow> r \<in> set (commit_row r rows)"
  by (force simp: commit_row_def)

lemma filter_by_key:
  "distinct (map k xs) \<Longrightarrow> e \<in> set xs \<Longrightarrow>
     filter (\<lambda>x. k x = k e \<and> P x) xs = (if P e then [e] else [])"
proof (induction xs)
  case Nil
  then show ?case by simp
next
  case (Cons a xs)
  show ?case
  proof (cases "a = e")
    case True
    then have "k e \<notin> k ` set xs" using Cons.prems(1) by simp
    then have "filter (\<lambda>x. k x = k e \<and> P x) xs = []"
      unfolding filter_empty_conv by (metis imageI)
    then show ?thesis using True by simp
  next
    case False
    then have e_in: "e \<in> set xs" using Cons.prems(2) by simp
    then have "k a \<noteq> k e" using Cons.prems(1) by force
    then show ?thesis using Cons.IH e_in Cons.prems(1) by simp
  qed
qed

lemma first_by_key:
  "distinct (map k xs) \<Longrightarrow> e \<in> set xs \<Longrightarrow>
     first (filter (\<lambda>x. k x = k e \<and> P x) xs) = (if P e then Some e else None)"
  by (simp add: filter_by_key first_def)

lemma set_project_field_id: "project_id (set_project_field data p f) = project_id p"
  by (simp add: set_project_field_def split: option.splits)

lemma foldl_set_project_field_id:
  "project_id (foldl (set_project_field data) p fs) = project_id p"
  by (induction fs arbitrary: p) (simp_all add: set_project_field_id)

lemma parse_date_typed:
  "\<not> truthy v \<or> (\<exists>s. v = JStr s) \<Longrightarrow> \<exists>t. parse_date_with_default_time fi v = Inr t"
  by (auto simp: parse_date_with_default_time_def split: option.splits)

lemma apply_project_update_id:
  "apply_project_update so fi data p = Inr p' \<Longrightarrow> project_id p' = project_id p"
  by (auto simp: apply_project_update_def Let_def foldl_set_project_field_id
      split: option.splits json.splits sum.splits if_splits)

lemma date_step_typed:
  assumes "\<forall>v. dv = Some v \<longrightarrow> \<not> truthy v \<or> (\<exists>s. v = JStr s)"
  shows "\<exists>t. (case dv of
                 None \<Rightarrow> Inr q
               | Some v \<Rightarrow>
                   (case parse_date_with_default_time fi v of
                      Inl e \<Rightarrow> Inl e
                    | Inr t \<Rightarrow> Inr (upd t q))) = Inr (case dv of None \<Rightarrow> q | Some v \<Rightarrow> upd t q)"
proof (cases dv)
  case None
  then show ?thesis by simp
next
  case (Some v)
  with assms have "\<not> truthy v \<or> (\<exists>s. v = JStr s)" by simp
  then obtain t where "parse_date_with_default_time fi v = Inr t"
    using parse_date_typed by blast
  then show ?thesis using Some by auto
qed

lemma apply_project_update_typed:
  assumes "\<forall>v. data ''project_start'' = Some v \<longrightarrow> \<not> truthy v \<or> (\<exists>s. v = JStr s)"
    and "\<forall>v. data ''project_end'' = Some v \<longrightarrow> \<not> truthy v \<or> (\<exists>s. v = JStr s)"
  shows "\<exists>p'. apply_project_update so fi data p = Inr p'"
proof -
  obtain p2 where p2: "apply_project_update so fi data p =
      (case (case data ''project_start'' of
                 None \<Rightarrow> Inr p2
               | Some v \<Rightarrow>
                   (case parse_date_with_default_time fi v of
                      Inl e \<Rightarrow> Inl e
                    | Inr t \<Rightarrow> Inr (project_start_update (\<lambda>_. t) p2))) of
           Inl e \<Rightarrow> Inl e
         | Inr p3 \<Rightarrow>
             (case data ''project_end'' of
                None \<Rightarrow> Inr p3
              | Some v \<Rightarrow>
                  (case parse_date_with_default_time fi v of
                     Inl e \<Rightarrow> Inl e
                   | Inr t \<Rightarrow> Inr (project_end_update (\<lambda>_. t) p3))))"
    by (simp add: apply_project_update_def Let_def)
  from date_step_typed [OF assms(1), where fi = fi and q = p2
      and upd = "\<lambda>t. project_start_update (\<lambda>_. t)"]
  obtain p3 where p3: "(case data ''project_start'' of
                 None \<Rightarrow> Inr p2
               | Some v \<Rightarrow>
                   (case parse_date_with_default_time fi v of
                      Inl e \<Rightarrow> Inl e
                    | Inr t \<Rightarrow> Inr (project_start_update (\<lambda>_. t) p2))) = Inr p3"
    by blast
  from date_step_typed [OF assms(2), where fi = fi and q = p3
      and upd = "\<lambda>t. project_end_update (\<lambda>_. t)"]
  obtain p4 where p4: "(case data ''project_end'' of
                None \<Rightarrow> Inr p3
              | Some v \<Rightarrow>
                  (case parse_date_with_default_time fi v of
                     Inl e \<Rightarrow> Inl e
                   | Inr t \<Rightarrow> Inr (project_end_update (\<lambda>_. t) p3))) = Inr p4"
    by blast
  show ?thesis by (simp add: p2 p3 p4)
qed


lemma set_project_field_cols:
  "project_cols (set_project_field data p x) f =
     (if f = x then (case data f of Some v \<Rightarrow> v | None \<Rightarrow> project_cols p f)
      else project_cols p f)"
  by (simp add: set_project_field_def split: option.splits)

lemma foldl_set_project_field_cols:
  "project_cols (foldl (set_project_field data) p fs) f =
     (if f \<in> set fs then (case data f of Some v \<Rightarrow> v | None \<Rightarrow> project_cols p f)
      else project_cols p f)"
  by (induction fs arbitrary: p) (auto simp: set_project_field_cols split: option.splits)

lemma set_project_field_rest:
  "project_tenant_id (set_project_field data p x) = project_tenant_id p \<and>
   project_created_by (set_project_field data p x) = project_created_by p \<and>
   project_status (set_project_field data p x) = project_status p \<and>
   project_start (set_project_field data p x) = project_start p \<and>
   project_end (set_project_field data p x) = project_end p"
  by (simp add: set_project_field_def split: option.splits)

lemma foldl_set_project_field_rest:
  "project_tenant_id (foldl (set_project_field data) p fs) = project_tenant_id p \<and>
   project_created_by (foldl (set_project_field data) p fs) = project_created_by p \<and>
   project_status (foldl (set_project_field data) p fs) = project_status p \<and>
   project_start (foldl (set_project_field data) p fs) = project_start p \<and>
   project_end (foldl (set_project_field data) p fs) = project_end p"
  by (induction fs arbitrary: p) (simp_all add: set_project_field_rest)

lemma apply_project_update_fields:
  assumes "apply_project_update so fi data p = Inr p'"
  shows "project_tenant_id p' = project_tenant_id p"
    and "project_created_by p' = project_created_by p"
    and "project_cols p' f =
           (if f \<in> set project_fields
            then (case data f of Some v \<Rightarrow> v | None \<Rightarrow> project_cols p f)
            else project_cols p f)"
    and "project_status p' =
           (case data ''project_status'' of
              Some (JStr s) \<Rightarrow> if s \<in> set so then JStr s else project_status p
            | _ \<Rightarrow> project_status p)"
    and "(case data ''project_start'' of
            None \<Rightarrow> project_start p' = project_start p
          | Some v \<Rightarrow> parse_date_with_default_time fi v = Inr (project_start p'))"
    and "(case data ''project_end'' of
            None \<Rightarrow> project_end p' = project_end p
          | Some v \<Rightarrow> parse_date_with_default_time fi v = Inr (project_end p'))"
  using assms
  by (auto simp: apply_project_update_def Let_def foldl_set_project_field_cols
      foldl_set_project_field_rest
      split: option.splits json.splits sum.splits if_splits)

lemma first_absent:
  "k0 \<notin> k ` set xs \<Longrightarrow> first (filter (\<lambda>x. k x = k0 \<and> P x) xs) = None"
proof -
  assume "k0 \<notin> k ` set xs"
  then have "filter (\<lambda>x. k x = k0 \<and> P x) xs = []"
    unfolding filter_empty_conv by (metis imageI)
  then show ?thesis by (simp add: first_def)
qed

lemma get_entity_query:
  assumes pk: "distinct (map ent_id xs)" and e_in: "e \<in> set xs"
  shows "first (if \<not> adm
                then filter (creator_or_assignee u)
                       (filter (\<lambda>x. ent_id x = ent_id e \<and> tenant_id x = user_tenant_id u \<and>
                                     deleted_at x = None) xs)
                else filter (\<lambda>x. ent_id x = ent_id e \<and> tenant_id x = user_tenant_id u \<and>
                                  deleted_at x = None) xs) =
         (if tenant_id e = user_tenant_id u \<and> deleted_at e = None \<and>
             (adm \<or> creator_or_assignee u e)
          then Some e else None)"
proof (cases adm)
  case True
  then show ?thesis
    using first_by_key [OF pk e_in,
        where P = "\<lambda>x. tenant_id x = user_tenant_id u \<and> deleted_at x = None"]
    by simp
next
  case False
  have "filter (creator_or_assignee u)
          (filter (\<lambda>x. ent_id x = ent_id e \<and> tenant_id x = user_tenant_id u \<and>
                        deleted_at x = None) xs) =
        filter (\<lambda>x. ent_id x = ent_id e \<and> (tenant_id x = user_tenant_id u \<and>
                        deleted_at x = None \<and> creator_or_assignee u x)) xs"
    by (simp add: conj_ac)
  then show ?thesis
    using False first_by_key [OF pk e_in,
        where P = "\<lambda>x. tenant_id x = user_tenant_id u \<and> deleted_at x = None \<and>
                        creator_or_assignee u x"]
    by simp
qed

lemma get_entity_absent:
  assumes "i \<notin> ent_id ` set xs"
  shows "first (if \<not> adm
                then filter (creator_or_assignee u)
                       (filter (\<lambda>x. ent_id x = i \<and> tenant_id x = user_tenant_id u \<and>
                                     deleted_at x = None) xs)
                else filter (\<lambda>x. ent_id x = i \<and> tenant_id x = user_tenant_id u \<and>
                                  deleted_at x = None) xs) = None"
proof -
  have "filter (\<lambda>x. ent_id x = i \<and> tenant_id x = user_tenant_id u \<and>
                                  deleted_at x = None) xs = []"
    using assms unfolding filter_empty_conv by (metis imageI)
  then show ?thesis by (simp add: first_def)
qed




lemma assign_lead_any_delivery:
  "assign_lead send d u i a now = assign_lead (\<lambda>n. Delivered) d u i a now"
proof -
  have h: "(case send n of Delivered \<Rightarrow> r | Fails \<Rightarrow> r) = r"
    for n and r :: "(failure + string) \<times> db"
    by (cases "send n") simp_all
  show ?thesis
  proof (cases "first (filter (\<lambda>l. ent_id l = i \<and> tenant_id l = user_tenant_id u \<and>
                               deleted_at l = None) (leads d))")
    case None
    then show ?thesis by (simp add: assign_lead_def)
  next
    case found: (Some l)
    show ?thesis
    proof (cases "user_of (users d) a")
      case None
      with found show ?thesis by (simp add: assign_lead_def Let_def)
    next
      case (Some x)
      with found show ?thesis by (simp add: assign_lead_def Let_def h)
    qed
  qed
qed

lemma set_insort_by: "set (insort_by le x xs) = insert x (set xs)"
  by (induction xs) auto

lemma set_order_by: "set (order_by le xs) = set xs"
  by (induction xs) (simp_all add: order_by_def set_insort_by)

lemma length_insort_by: "length (insort_by le x xs) = Suc (length xs)"
  by (induction xs) auto

lemma length_order_by: "length (order_by le xs) = length xs"
  by (induction xs) (simp_all add: order_by_def length_insort_by)

lemma sorted_insort_by:
  assumes total: "\<And>a b. le a b \<or> le b a"
    and trans: "\<And>a b c. le a b \<Longrightarrow> le b c \<Longrightarrow> le a c"
  shows "sorted_wrt le xs \<Longrightarrow> sorted_wrt le (insort_by le x xs)"
proof (induction xs)
  case Nil
  then show ?case by simp
next
  case (Cons y ys)
  show ?case
  proof (cases "le x y")
    case True
    then have "\<forall>z \<in> set ys. le x z" using Cons.prems trans by auto
    then show ?thesis using True Cons.prems by simp
  next
    case False
    then have "le y x" using total by blast
    then show ?thesis using False Cons by (auto simp: set_insort_by)
  qed
qed

lemma sorted_order_by:
  assumes total: "\<And>a b. le a b \<or> le b a"
    and trans: "\<And>a b c. le a b \<Longrightarrow> le b c \<Longrightarrow> le a c"
  shows "sorted_wrt le (order_by le xs)"
proof (induction xs)
  case Nil
  then show ?case by (simp add: order_by_def)
next
  case (Cons x xs)
  have "sorted_wrt le (insort_by le x (order_by le xs))"
  proof (rule sorted_insort_by)
    show "\<And>a b. le a b \<or> le b a" by (rule total)
    show "\<And>a b c. le a b \<Longrightarrow> le b c \<Longrightarrow> le a c" by (rule trans)
    show "sorted_wrt le (order_by le xs)" by (rule Cons.IH)
  qed
  then show ?case by (simp add: order_by_def)
qed

lemma null_lowest_total: "null_lowest_le (\<le>) (a :: int option) b \<or> null_lowest_le (\<le>) b a"
  by (auto simp: null_lowest_le_def split: option.splits)

lemma null_lowest_trans:
  "null_lowest_le (\<le>) (a :: int option) b \<Longrightarrow> null_lowest_le (\<le>) b c
     \<Longrightarrow> null_lowest_le (\<le>) a c"
  by (auto simp: null_lowest_le_def split: option.splits)

lemma set_apply_sort: "set (apply_sort intrs so rows) = set rows"
  by (simp add: apply_sort_def set_order_by)

lemma sorted_apply_sort_activity:
  "sorted_wrt (\<lambda>a b. null_lowest_le (\<le>) (last_contact intrs b) (last_contact intrs a))
     (apply_sort intrs ''activity'' rows)"
proof -
  have "sorted_wrt (\<lambda>a b. null_lowest_le (\<le>) (last_contact intrs b) (last_contact intrs a))
     (order_by (\<lambda>a b. null_lowest_le (\<le>) (last_contact intrs b) (last_contact intrs a)) rows)"
  proof (rule sorted_order_by)
    show "\<And>a b. null_lowest_le (\<le>) (last_contact intrs b) (last_contact intrs a) \<or>
               null_lowest_le (\<le>) (last_contact intrs a) (last_contact intrs b)"
      by (rule null_lowest_total)
    show "\<And>a b c. null_lowest_le (\<le>) (last_contact intrs b) (last_contact intrs a) \<Longrightarrow>
                 null_lowest_le (\<le>) (last_contact intrs c) (last_contact intrs b) \<Longrightarrow>
                 null_lowest_le (\<le>) (last_contact intrs c) (last_contact intrs a)"
      using null_lowest_trans by blast
  qed
  then show ?thesis by (simp add: apply_sort_def)
qed

lemma max_opt_None: "max_opt xs = None \<longleftrightarrow> xs = []"
  by (induction xs) (auto split: option.splits)

lemma max_opt_Some:
  "max_opt xs = Some m \<Longrightarrow> m \<in> set xs \<and> (\<forall>x \<in> set xs. x \<le> m)"
proof (induction xs arbitrary: m)
  case Nil
  then show ?case by simp
next
  case (Cons x xs)
  show ?case
  proof (cases "max_opt xs")
    case None
    then have "xs = []" by (simp add: max_opt_None)
    then show ?thesis using Cons.prems by simp
  next
    case (Some k)
    then have k: "k \<in> set xs \<and> (\<forall>x \<in> set xs. x \<le> k)" by (rule Cons.IH)
    have "m = max x k" using Cons.prems Some by simp
    then show ?thesis using k by (auto simp: max_def)
  qed
qed

lemma set_join:
  "set (join on xs ys) = {(x, y). x \<in> set xs \<and> y \<in> set ys \<and> on x y}"
  by (auto simp: join_def)

lemma set_outerjoin_unmatched:
  "(x, None) \<in> set (outerjoin on xs ys) \<longleftrightarrow> x \<in> set xs \<and> \<not> (\<exists>y \<in> set ys. on x y)"
proof -
  have "(x, None) \<in> set (case filter (on a) ys of [] \<Rightarrow> [(a, None)]
                           | m # ms \<Rightarrow> map (\<lambda>y. (a, Some y)) (m # ms))
        \<longleftrightarrow> x = a \<and> \<not> (\<exists>y \<in> set ys. on a y)" for a
    by (cases "filter (on a) ys") (auto simp: filter_empty_conv dest: filter_eq_ConsD)
  then show ?thesis by (auto simp: outerjoin_def)
qed

lemma set_outerjoin_matched:
  "(x, Some y) \<in> set (outerjoin on xs ys) \<longleftrightarrow> x \<in> set xs \<and> y \<in> set ys \<and> on x y"
proof -
  have "(x, Some y) \<in> set (case filter (on a) ys of [] \<Rightarrow> [(a, None)]
                           | m # ms \<Rightarrow> map (\<lambda>y. (a, Some y)) (m # ms))
        \<longleftrightarrow> x = a \<and> y \<in> set ys \<and> on a y" for a
  proof (cases "filter (on a) ys")
    case Nil
    then show ?thesis by (auto simp: filter_empty_conv)
  next
    case (Cons m ms)
    then have "set (m # ms) = {y \<in> set ys. on a y}" by (metis set_filter)
    then show ?thesis using Cons by auto
  qed
  then show ?thesis by (auto simp: outerjoin_def)
qed


lemma set_activity_filter_active:
  "set (apply_activity_filter intrs now ''active'' rows) =
     {c \<in> set rows. \<exists>i \<in> set intrs. int_client_id i = Some (ent_id c) \<and>
                                      contact_date i \<ge> now - days 30}"
proof -
  have "set (apply_activity_filter intrs now ''active'' rows) =
        fst ` {p \<in> set (join (\<lambda>c i. Some (ent_id c) = int_client_id i) rows intrs).
                 contact_date (snd p) \<ge> now - days 30}"
    by (auto simp: apply_activity_filter_def Let_def image_iff split: prod.splits)
  also have "\<dots> = {c \<in> set rows. \<exists>i \<in> set intrs. int_client_id i = Some (ent_id c) \<and>
                                      contact_date i \<ge> now - days 30}"
    by (force simp: set_join)
  finally show ?thesis .
qed

lemma set_activity_filter_inactive:
  "set (apply_activity_filter intrs now ''inactive'' rows) =
     {c \<in> set rows. \<not> (\<exists>i \<in> set intrs. int_client_id i = Some (ent_id c) \<and>
                                         contact_date i \<ge> now - days 90)}"
proof -
  let ?recent = "recent_interaction_clients intrs (now - days 90)"
  let ?oj = "outerjoin (\<lambda>c cid. Some (ent_id c) = cid) rows ?recent"
  have recent: "Some k \<in> set ?recent \<longleftrightarrow>
      (\<exists>i \<in> set intrs. int_client_id i = Some k \<and> contact_date i \<ge> now - days 90)" for k
    by (auto simp: recent_interaction_clients_def image_iff)
  have "set (apply_activity_filter intrs now ''inactive'' rows) =
        fst ` {p \<in> set ?oj. (case snd p of None \<Rightarrow> None | Some cid \<Rightarrow> cid) = None}"
    by (auto simp: apply_activity_filter_def Let_def image_iff split: prod.splits)
  also have "\<dots> = {c. (c, None) \<in> set ?oj}"
  proof (intro set_eqI iffI)
    fix c assume "c \<in> fst ` {p \<in> set ?oj. (case snd p of None \<Rightarrow> None | Some cid \<Rightarrow> cid) = None}"
    then obtain m where m: "(c, m) \<in> set ?oj" "(case m of None \<Rightarrow> None | Some cid \<Rightarrow> cid) = None"
      by auto
    show "c \<in> {c. (c, None) \<in> set ?oj}"
    proof (cases m)
      case None
      then show ?thesis using m by simp
    next
      case (Some cid)
      then have "Some (ent_id c) = cid" using m(1) by (simp add: set_outerjoin_matched)
      then show ?thesis using m(2) Some by simp
    qed
  next
    fix c assume "c \<in> {c. (c, None) \<in> set ?oj}"
    then have "(c, None) \<in> {p \<in> set ?oj. (case snd p of None \<Rightarrow> None | Some cid \<Rightarrow> cid) = None}"
      by simp
    then show "c \<in> fst ` {p \<in> set ?oj. (case snd p of None \<Rightarrow> None | Some cid \<Rightarrow> cid) = None}"
      by force
  qed
  also have "\<dots> = {c \<in> set rows. \<not> (\<exists>i \<in> set intrs. int_client_id i = Some (ent_id c) \<and>
                                         contact_date i \<ge> now - days 90)}"
    using recent by (auto simp: set_outerjoin_unmatched)
  finally show ?thesis .
qed

lemma set_activity_filter_subset:
  "set (apply_activity_filter intrs now act rows) \<subseteq> set rows"
proof -
  have "set (apply_activity_filter intrs now ''active'' rows) \<subseteq> set rows"
    by (simp add: set_activity_filter_active)
  moreover have "set (apply_activity_filter intrs now ''inactive'' rows) \<subseteq> set rows"
    by (simp add: set_activity_filter_inactive)
  moreover have "act \<noteq> ''active'' \<Longrightarrow> act \<noteq> ''inactive'' \<Longrightarrow>
      set (apply_activity_filter intrs now act rows) \<subseteq> set rows"
    by (auto simp: apply_activity_filter_def Let_def)
  ultimately show ?thesis by blast
qed

lemma set_activity_filter_all:
  "set (apply_activity_filter intrs now ''all'' rows) = set rows"
  by (simp add: apply_activity_filter_def)

lemma distinct_joined_tables:
  "distinct (joined_tables so act) \<longleftrightarrow> \<not> (act = ''active'' \<and> so = ''activity'')"
  by (simp add: joined_tables_def)

lemma client_query_Inr:
  assumes "\<not> (act = ''active'' \<and> so = ''activity'')"
  shows "client_query d u now so act =
     Inr (apply_sort (interactions d) so
            (apply_activity_filter (interactions d) now act
               (filter (\<lambda>c. live_in_tenant u c \<and> default_owner u c) (clients d))))"
  using assms by (simp add: client_query_def distinct_joined_tables)

lemma client_query_InrD:
  assumes "client_query d u now so act = Inr q"
  shows "\<not> (act = ''active'' \<and> so = ''activity'') \<and>
         q = apply_sort (interactions d) so
               (apply_activity_filter (interactions d) now act
                  (filter (\<lambda>c. live_in_tenant u c \<and> default_owner u c) (clients d)))"
  using assms by (simp add: client_query_def distinct_joined_tables split: if_splits)

lemma client_query_active_activity:
  "client_query d u now ''activity'' ''active'' = Inl StoreError"
  by (simp add: client_query_def joined_tables_def)

lemma set_client_query:
  assumes "client_query d u now so act = Inr q"
  shows "set q = set (apply_activity_filter (interactions d) now act
                   (filter (\<lambda>c. live_in_tenant u c \<and> default_owner u c) (clients d)))"
  using client_query_InrD [OF assms] by (simp add: set_apply_sort)

lemma client_query_visible:
  assumes "client_query d u now so act = Inr q" and "c \<in> set q"
  shows "c \<in> set (clients d) \<and> live_in_tenant u c \<and> default_owner u c"
proof -
  from assms have "c \<in> set (apply_activity_filter (interactions d) now act
                   (filter (\<lambda>c. live_in_tenant u c \<and> default_owner u c) (clients d)))"
    by (simp add: set_client_query)
  then have "c \<in> set (filter (\<lambda>c. live_in_tenant u c \<and> default_owner u c) (clients d))"
    using set_activity_filter_subset by blast
  then show ?thesis by simp
qed

lemma all_client_query_visible:
  assumes "all_client_query d u now so act e = Inr q" and "c \<in> set q"
  shows "c \<in> set (clients d) \<and> live_in_tenant u c"
proof -
  let ?rows = "filter (\<lambda>c. (case e of
                              None \<Rightarrow> True
                            | Some e \<Rightarrow> e = [] \<or> has_email (users d) (assigned_to c) e
                                         \<or> has_email (users d) (Some (created_by c)) e))
                 (filter (live_in_tenant u) (clients d))"
  from assms(1) have "q = apply_sort (interactions d) so
                            (apply_activity_filter (interactions d) now act ?rows)"
    by (simp add: all_client_query_def split: if_splits)
  with assms(2) have "c \<in> set (apply_activity_filter (interactions d) now act ?rows)"
    by (simp add: set_apply_sort)
  then have "c \<in> set ?rows"
    using set_activity_filter_subset by blast
  then show ?thesis by simp
qed

lemma outerjoin_Cons:
  "outerjoin on (x # xs) ys =
     (if filter (on x) ys = [] then [(x, None)]
      else map (\<lambda>y. (x, Some y)) (filter (on x) ys)) @
     outerjoin on xs ys"
  by (cases "filter (on x) ys") (simp_all add: outerjoin_def)

lemma inactive_rows:
  "map fst (filter (\<lambda>(c, m). (case m of None \<Rightarrow> None | Some cid \<Rightarrow> cid) = None)
              (outerjoin (\<lambda>c cid. Some (ent_id c) = cid) rows ys)) =
   filter (\<lambda>c. filter (\<lambda>cid. Some (ent_id c) = cid) ys = []) rows"
proof (induction rows)
  case Nil
  show ?case by (simp add: outerjoin_def)
next
  case (Cons x xs)
  have "filter (\<lambda>(c, m). (case m of None \<Rightarrow> None | Some cid \<Rightarrow> cid) = None)
          (map (\<lambda>y. (x, Some y)) (filter (\<lambda>cid. Some (ent_id x) = cid) ys)) = []"
    unfolding filter_empty_conv by auto
  then show ?case using Cons.IH by (simp add: outerjoin_Cons)
qed

lemma length_activity_filter:
  "length (apply_activity_filter intrs now act rows) \<le> length rows"
proof -
  have "length (apply_activity_filter intrs now ''active'' rows) \<le> length rows"
  proof -
    let ?xs = "map fst (filter (\<lambda>(c, i). contact_date i \<ge> now - days 30)
                 (join (\<lambda>c i. Some (ent_id c) = int_client_id i) rows intrs))"
    have "set ?xs \<subseteq> set rows" by (auto simp: set_join)
    then have "card (set ?xs) \<le> card (set rows)" by (simp add: card_mono)
    also have "\<dots> \<le> length rows" by (rule card_length)
    finally have "length (remdups ?xs) \<le> length rows"
      by (simp add: length_remdups_card_conv)
    then show ?thesis by (simp add: apply_activity_filter_def Let_def)
  qed
  moreover have "length (apply_activity_filter intrs now ''inactive'' rows) \<le> length rows"
    by (simp add: apply_activity_filter_def Let_def inactive_rows)
  moreover have "act \<noteq> ''active'' \<Longrightarrow> act \<noteq> ''inactive'' \<Longrightarrow>
      length (apply_activity_filter intrs now act rows) \<le> length rows"
    by (simp add: apply_activity_filter_def Let_def)
  ultimately show ?thesis by blast
qed

lemma length_apply_sort: "length (apply_sort intrs so rows) = length rows"
  by (simp add: apply_sort_def length_order_by)

lemma length_client_query:
  assumes "client_query d u now so act = Inr q"
  shows "length q \<le> length (clients d)"
proof -
  have "length q = length (apply_activity_filter (interactions d) now act
                   (filter (\<lambda>c. live_in_tenant u c \<and> default_owner u c) (clients d)))"
    using client_query_InrD [OF assms] by (simp add: length_apply_sort)
  also have "\<dots> \<le> length (filter (\<lambda>c. live_in_tenant u c \<and> default_owner u c) (clients d))"
    by (rule length_activity_filter)
  also have "\<dots> \<le> length (clients d)" by simp
  finally show ?thesis .
qed

lemma in_some_page:
  assumes "x \<in> set xs" and "0 < n"
  shows "\<exists>p. x \<in> set (take n (drop (p * n) xs)) \<and> p * n < length xs"
proof -
  from assms(1) obtain i where i: "i < length xs" "xs ! i = x"
    by (auto simp: in_set_conv_nth)
  let ?p = "i div n"
  let ?ys = "drop (?p * n) xs"
  have m: "i mod n < n" using assms(2) by simp
  have sum: "?p * n + i mod n = i" by simp
  have le: "?p * n \<le> length xs" using i(1) sum by linarith
  have lt: "?p * n < length xs" using i(1) sum by linarith
  have "?ys ! (i mod n) = xs ! (?p * n + i mod n)"
    using le by (rule nth_drop)
  then have y: "?ys ! (i mod n) = x" using sum i(2) by simp
  have len: "i mod n < length ?ys" using i(1) sum by (simp add: less_diff_conv add.commute)
  have "take n ?ys ! (i mod n) = x" using m y by simp
  moreover have "i mod n < length (take n ?ys)" using m len by simp
  ultimately have "x \<in> set (take n ?ys)" using nth_mem by blast
  with lt show ?thesis by blast
qed

lemma item_client_decorate: "item_client (decorate us st c) = c"
  by (simp add: decorate_def)

lemma offset_limit_ok:
  assumes "0 \<le> off" and "off \<le> int64_max" and "0 \<le> lim" and "lim \<le> int64_max"
  shows "offset_limit neg off lim rows = Inr (take (nat lim) (drop (nat off) rows))"
  using assms by (simp add: offset_limit_def in_int64_def int64_max_def)

lemma offset_limit_sublist:
  assumes "offset_limit neg off lim rows = Inr cs"
  shows "\<exists>n m. cs = take n (drop m rows)"
proof (cases "lim < 0")
  case True
  with assms have "cs = drop (nat off) rows"
    by (simp add: offset_limit_def split: if_splits)
  then have "cs = take (length rows) (drop (nat off) rows)" by simp
  then show ?thesis by blast
next
  case False
  with assms have "cs = take (nat lim) (drop (nat off) rows)"
    by (simp add: offset_limit_def split: if_splits)
  then show ?thesis by blast
qed

lemma list_clients_page_ok:
  assumes q: "client_query d u now so act = Inr q"
    and "1 \<le> pg" and "0 \<le> pp" and "(pg - 1) * pp \<le> int64_max" and "pp \<le> int64_max"
  shows "\<exists>r. list_clients_page d u now pg pp so act = Inr r \<and>
             map item_client (page_items r) = take (nat pp) (drop (nat ((pg - 1) * pp)) q) \<and>
             total r = length q \<and>
             page r = pg \<and> per_page r = pp \<and> sort_order r = so \<and> activity_filter r = act"
proof -
  have "0 \<le> (pg - 1) * pp" using assms(2,3) by simp
  then have "offset_limit (on_negative d) ((pg - 1) * pp) pp q =
      Inr (take (nat pp) (drop (nat ((pg - 1) * pp)) q))"
    using assms(3,4,5) by (simp add: offset_limit_ok)
  then show ?thesis
    by (simp add: list_clients_page_def q Let_def comp_def item_client_decorate)
qed

lemma list_clients_page_rows:
  assumes "list_clients_page d u now pg pp so act = Inr r"
  shows "\<exists>q n m. client_query d u now so act = Inr q \<and>
           map item_client (page_items r) = take n (drop m q) \<and> total r = length q"
proof (cases "client_query d u now so act")
  case (Inl e)
  with assms show ?thesis by (simp add: list_clients_page_def)
next
  case q: (Inr q)
  show ?thesis
  proof (cases "offset_limit (on_negative d) ((pg - 1) * pp) pp q")
    case (Inl e)
    with assms q show ?thesis by (simp add: list_clients_page_def)
  next
    case cs: (Inr cs)
    from offset_limit_sublist [OF cs] obtain n m where nm: "cs = take n (drop m q)" by blast
    from assms q cs have "map item_client (page_items r) = cs" "total r = length q"
      by (auto simp: list_clients_page_def Let_def comp_def item_client_decorate)
    with q nm show ?thesis by blast
  qed
qed

lemma list_clients_page_items:
  assumes "list_clients_page d u now pg pp so act = Inr r"
  shows "\<exists>q. client_query d u now so act = Inr q \<and>
             set (map item_client (page_items r)) \<subseteq> set q"
proof -
  from list_clients_page_rows [OF assms] obtain q n m where
    q: "client_query d u now so act = Inr q"
    and items: "map item_client (page_items r) = take n (drop m q)"
    by blast
  have "set (take n (drop m q)) \<subseteq> set q"
    using set_take_subset set_drop_subset by fast
  with q items show ?thesis by simp
qed

lemma listed_iff:
  assumes q: "client_query d u now so act = Inr q"
    and pp: "1 \<le> pp" "pp \<le> int64_max"
    and len: "int (length q) \<le> int64_max"
  shows "(\<exists>pg \<ge> 1. \<exists>r. list_clients_page d u now pg pp so act = Inr r \<and>
                      c \<in> item_client ` set (page_items r))
         \<longleftrightarrow> c \<in> set q"
proof
  assume "\<exists>pg \<ge> 1. \<exists>r. list_clients_page d u now pg pp so act = Inr r \<and>
                      c \<in> item_client ` set (page_items r)"
  then obtain pg r where r: "list_clients_page d u now pg pp so act = Inr r"
    and c: "c \<in> item_client ` set (page_items r)" by blast
  from list_clients_page_items [OF r] q
  have "set (map item_client (page_items r)) \<subseteq> set q" by simp
  with c show "c \<in> set q" by auto
next
  assume c: "c \<in> set q"
  have "0 < nat pp" using pp(1) by simp
  with c have "\<exists>p. c \<in> set (take (nat pp) (drop (p * nat pp) q)) \<and> p * nat pp < length q"
    by (rule in_some_page)
  then obtain p where p: "c \<in> set (take (nat pp) (drop (p * nat pp) q))"
    and lt: "p * nat pp < length q"
    by (elim exE conjE)
  let ?pg = "int p + 1"
  have off: "nat ((?pg - 1) * pp) = p * nat pp"
    using pp(1) by (simp add: nat_mult_distrib)
  have "(?pg - 1) * pp = int (p * nat pp)" using pp(1) by simp
  also have "\<dots> \<le> int (length q)" using lt by linarith
  finally have bound: "(?pg - 1) * pp \<le> int64_max" using len by simp
  have "1 \<le> ?pg" "0 \<le> pp" using pp(1) by simp_all
  with q have "\<exists>r. list_clients_page d u now ?pg pp so act = Inr r \<and>
             map item_client (page_items r) = take (nat pp) (drop (nat ((?pg - 1) * pp)) q) \<and>
             total r = length q \<and>
             page r = ?pg \<and> per_page r = pp \<and> sort_order r = so \<and> activity_filter r = act"
    using bound pp(2) by (rule list_clients_page_ok)
  then obtain r where "list_clients_page d u now ?pg pp so act = Inr r"
    "map item_client (page_items r) = take (nat pp) (drop (nat ((?pg - 1) * pp)) q)"
    by (elim exE conjE)
  with off have "list_clients_page d u now ?pg pp so act = Inr r \<and>
                      c \<in> set (map item_client (page_items r))"
    using p by simp
  then have "list_clients_page d u now ?pg pp so act = Inr r \<and>
                      c \<in> item_client ` set (page_items r)"
    by simp
  moreover have "1 \<le> ?pg" by simp
  ultimately show "\<exists>pg \<ge> 1. \<exists>r. list_clients_page d u now pg pp so act = Inr r \<and>
                      c \<in> item_client ` set (page_items r)"
    by blast
qed

lemma list_clients_default:
  "list_clients d u (\<lambda>k. None) now = list_clients_page d u now 1 20 ''newest'' ''all''"
  by (simp add: list_clients_def int_arg_def str_arg_def valid_sort_def)

lemma last_contact_None:
  "last_contact intrs c = None \<longleftrightarrow> \<not> (\<exists>i \<in> set intrs. int_client_id i = Some (ent_id c))"
  by (auto simp: last_contact_def max_opt_None filter_empty_conv)

lemma last_contact_Some:
  assumes "last_contact intrs c = Some m"
  shows "(\<exists>i \<in> set intrs. int_client_id i = Some (ent_id c) \<and> contact_date i = m) \<and>
         (\<forall>i \<in> set intrs. int_client_id i = Some (ent_id c) \<longrightarrow> contact_date i \<le> m)"
proof -
  let ?ds = "map contact_date (filter (\<lambda>i. int_client_id i = Some (ent_id c)) intrs)"
  from assms have "m \<in> set ?ds \<and> (\<forall>x \<in> set ?ds. x \<le> m)"
    unfolding last_contact_def by (rule max_opt_Some)
  then show ?thesis by auto
qed

lemma sorted_wrt_nth_later:
  "sorted_wrt P xs \<Longrightarrow> i < j \<Longrightarrow> j < length xs \<Longrightarrow> P (xs ! i) (xs ! j)"
  by (simp add: sorted_wrt_iff_nth_less)


lemma demo_activity_query:
  "client_query demo_db alice demo_now ''activity'' ''all'' = Inr [client1, client4, client5]"
  by (simp add: client_query_def joined_tables_def
      apply_sort_def apply_activity_filter_def order_by_def
      last_contact_def null_lowest_le_def live_in_tenant_def default_owner_def
      demo_db_def client1_def client2_def client3_def client4_def client5_def alice_def
      contact1_def contact4_def)

lemma py_int_abc: "py_int ''abc'' = Inl ValueError"
  by (simp add: py_int_def strip_def is_space_def is_digit_def)

lemma py_int_0: "py_int ''0'' = Inr 0"
  by (simp add: py_int_def strip_def is_space_def is_digit_def digit_val_def)

lemma py_int_1: "py_int ''1'' = Inr 1"
  by (simp add: py_int_def strip_def is_space_def is_digit_def digit_val_def)

lemma py_int_2: "py_int ''2'' = Inr 2"
  by (simp add: py_int_def strip_def is_space_def is_digit_def digit_val_def)

lemma py_int_separator: "py_int [CHR 0x1C, CHR ''2''] = Inl ValueError"
  by (simp add: py_int_def strip_def is_space_def is_digit_def)

lemma first_SomeD: "first xs = Some x \<Longrightarrow> x \<in> set xs"
  by (cases xs) (simp_all add: first_def)

lemma interaction_stats_key:
  "interaction_stats intrs ids k = Some s \<Longrightarrow> k \<in> set ids"
  by (auto simp: interaction_stats_def Let_def split: if_splits)

lemma item_client_extend:
  "item_client (client_item.extend (decorate us st c) (client_item_all.fields n)) = c"
  by (simp add: client_item.defs decorate_def)

lemma list_clients_items_live:
  assumes "list_clients d u args now = Inr r" and "it \<in> set (page_items r)"
  shows "item_client it \<in> set (clients d) \<and> live_in_tenant u (item_client it)"
proof -
  from assms(1) obtain pg pp so act where "list_clients_page d u now pg pp so act = Inr r"
    by (auto simp: list_clients_def split: sum.splits)
  then have "\<exists>q. client_query d u now so act = Inr q \<and>
                 set (map item_client (page_items r)) \<subseteq> set q"
    by (rule list_clients_page_items)
  then obtain q where q: "client_query d u now so act = Inr q"
    and sub: "set (map item_client (page_items r)) \<subseteq> set q"
    by (elim exE conjE)
  from sub assms(2) have "item_client it \<in> set q" by auto
  with q show ?thesis using client_query_visible by blast
qed

lemma list_all_clients_rows:
  assumes "list_all_clients d u args now = Inr r"
  shows "\<exists>q n m. all_client_query d u now (valid_sort (str_arg args ''sort'' ''newest''))
                     (str_arg args ''activity_filter'' ''all'') (args ''user_email'') = Inr q \<and>
                   map item_client (page_items r) = take n (drop m q)"
proof -
  let ?so = "valid_sort (str_arg args ''sort'' ''newest'')"
  let ?act = "str_arg args ''activity_filter'' ''all''"
  from assms obtain pg pp where pg: "int_arg args ''page'' 1 = Inr pg"
    and pp: "int_arg args ''per_page'' 20 = Inr pp"
    by (auto simp: list_all_clients_def split: sum.splits)
  show ?thesis
  proof (cases "all_client_query d u now ?so ?act (args ''user_email'')")
    case (Inl e)
    with assms pg pp show ?thesis by (simp add: list_all_clients_def Let_def)
  next
    case q: (Inr q)
    show ?thesis
    proof (cases "offset_limit (on_negative d) ((pg - 1) * pp) pp q")
      case (Inl e)
      with assms pg pp q show ?thesis by (simp add: list_all_clients_def Let_def)
    next
      case cs: (Inr cs)
      from offset_limit_sublist [OF cs] obtain n m where nm: "cs = take n (drop m q)" by blast
      from assms pg pp q cs have "map item_client (page_items r) = cs"
        by (auto simp: list_all_clients_def Let_def comp_def item_client_extend)
      with q nm show ?thesis by blast
    qed
  qed
qed

lemma list_all_clients_items_live:
  assumes "list_all_clients d u args now = Inr r" and "it \<in> set (page_items r)"
  shows "item_client it \<in> set (clients d) \<and> live_in_tenant u (item_client it)"
proof -
  from list_all_clients_rows [OF assms(1)] obtain q n m where
    q: "all_client_query d u now (valid_sort (str_arg args ''sort'' ''newest''))
          (str_arg args ''activity_filter'' ''all'') (args ''user_email'') = Inr q"
    and items: "map item_client (page_items r) = take n (drop m q)"
    by blast
  have "set (take n (drop m q)) \<subseteq> set q"
    using set_take_subset set_drop_subset by fast
  with items have "set (map item_client (page_items r)) \<subseteq> set q" by simp
  then have "item_client it \<in> set q" using assms(2) by auto
  with q show ?thesis using all_client_query_visible by blast
qed

lemma no_live_row:
  assumes "\<forall>e \<in> set xs. ent_id e = i \<longrightarrow> deleted_at e \<noteq> None"
  shows "filter (\<lambda>e. ent_id e = i \<and> tenant_id e = t \<and> deleted_at e = None) xs = []"
  using assms unfolding filter_empty_conv by blast

lemma get_client_live: "get_client d u i = (Inr c, d') \<Longrightarrow> c \<in> set (clients d) \<and> deleted_at c = None"
  by (auto simp: get_client_def Let_def split: option.splits if_splits dest!: first_SomeD)

lemma get_lead_live: "get_lead d u i = (Inr l, d') \<Longrightarrow> l \<in> set (leads d) \<and> deleted_at l = None"
  by (auto simp: get_lead_def Let_def split: option.splits if_splits dest!: first_SomeD)

lemma assign_client_target:
  assumes "assign_client send d u i a now = (Inr m, d')"
  shows "\<exists>c \<in> set (clients d). ent_id c = i \<and> deleted_at c = None \<and>
                              tenant_id c = user_tenant_id u"
proof (cases "first (filter (\<lambda>c. ent_id c = i \<and> tenant_id c = user_tenant_id u \<and>
                                  deleted_at c = None) (clients d))")
  case None
  then show ?thesis using assms by (simp add: assign_client_def split: if_splits)
next
  case (Some c)
  then have "c \<in> set (filter (\<lambda>c. ent_id c = i \<and> tenant_id c = user_tenant_id u \<and>
                                  deleted_at c = None) (clients d))"
    by (rule first_SomeD)
  then show ?thesis by auto
qed

lemma assign_lead_target:
  assumes "assign_lead send d u i a now = (Inr m, d')"
  shows "\<exists>l \<in> set (leads d). ent_id l = i \<and> deleted_at l = None \<and>
                            tenant_id l = user_tenant_id u"
proof (cases "first (filter (\<lambda>c. ent_id c = i \<and> tenant_id c = user_tenant_id u \<and>
                                  deleted_at c = None) (leads d))")
  case None
  then show ?thesis using assms by (simp add: assign_lead_def)
next
  case (Some c)
  then have "c \<in> set (filter (\<lambda>c. ent_id c = i \<and> tenant_id c = user_tenant_id u \<and>
                                  deleted_at c = None) (leads d))"
    by (rule first_SomeD)
  then show ?thesis by auto
qed


lemma list_all_clients_ok:
  assumes "int_arg args ''page'' 1 = Inr pg" and "int_arg args ''per_page'' 20 = Inr pp"
    and "1 \<le> pg" and "0 \<le> pp" and "(pg - 1) * pp \<le> int64_max" and "pp \<le> int64_max"
    and q: "all_client_query d u now (valid_sort (str_arg args ''sort'' ''newest''))
              (str_arg args ''activity_filter'' ''all'') (args ''user_email'') = Inr q"
  shows "\<exists>r. list_all_clients d u args now = Inr r \<and>
             map item_client (page_items r) = take (nat pp) (drop (nat ((pg - 1) * pp)) q)"
proof -
  have "0 \<le> (pg - 1) * pp" using assms(3,4) by simp
  then have "offset_limit (on_negative d) ((pg - 1) * pp) pp q =
      Inr (take (nat pp) (drop (nat ((pg - 1) * pp)) q))"
    using assms(4,5,6) by (simp add: offset_limit_ok)
  then show ?thesis
    using assms(1,2) q
    by (simp add: list_all_clients_def Let_def comp_def item_client_extend)
qed

lemma demo_all_client_query:
  "all_client_query demo_db root demo_now ''newest'' ''all'' None =
     Inr [client5, client4, client2, client1]"
  by (simp add: all_client_query_def joined_tables_def
      apply_sort_def apply_activity_filter_def order_by_def
      live_in_tenant_def
      demo_db_def client1_def client2_def client3_def client4_def client5_def root_def)

lemma demo_all_clients:
  "\<exists>r. list_all_clients demo_db root no_args demo_now = Inr r \<and>
       map item_client (page_items r) = [client5, client4, client2, client1]"
proof -
  have a: "int_arg no_args ''page'' 1 = Inr 1" "int_arg no_args ''per_page'' 20 = Inr 20"
    and s: "valid_sort (str_arg no_args ''sort'' ''newest'') = ''newest''"
      "str_arg no_args ''activity_filter'' ''all'' = ''all''" "no_args ''user_email'' = None"
    by (simp_all add: int_arg_def str_arg_def valid_sort_def no_args_def)
  have b: "(1::int) \<le> 1" "(0::int) \<le> 20" "(1 - 1) * 20 \<le> int64_max" "20 \<le> int64_max"
    by (simp_all add: int64_max_def)
  have q: "all_client_query demo_db root demo_now
             (valid_sort (str_arg no_args ''sort'' ''newest''))
             (str_arg no_args ''activity_filter'' ''all'') (no_args ''user_email'') =
           Inr [client5, client4, client2, client1]"
    by (simp add: s demo_all_client_query)
  show ?thesis
    using list_all_clients_ok [OF a b q] by simp
qed

lemma demo_active_query:
  "client_query demo_db alice demo_now ''newest'' ''active'' = Inr [client1]"
  by (simp add: client_query_def joined_tables_def
      apply_sort_def apply_activity_filter_def order_by_def join_def days_def demo_now_def
      live_in_tenant_def default_owner_def
      demo_db_def client1_def client2_def client3_def client4_def client5_def alice_def
      contact1_def contact4_def)

lemma activity_filter_pages:
  assumes "1 \<le> pp" and "pp \<le> int64_max" and "int (length (clients d)) \<le> int64_max"
    and c: "c \<in> set (clients d)"
  shows "((\<exists>pg \<ge> 1. \<exists>r. list_clients_page d u now pg pp so ''inactive'' = Inr r \<and>
                      c \<in> item_client ` set (page_items r)) \<longleftrightarrow>
       live_in_tenant u c \<and> default_owner u c \<and>
       \<not> (\<exists>i \<in> set (interactions d). int_client_id i = Some (ent_id c) \<and>
                                        contact_date i \<ge> now - days 90))"
    and "so \<noteq> ''activity'' \<Longrightarrow>
      ((\<exists>pg \<ge> 1. \<exists>r. list_clients_page d u now pg pp so ''active'' = Inr r \<and>
                      c \<in> item_client ` set (page_items r)) \<longleftrightarrow>
       live_in_tenant u c \<and> default_owner u c \<and>
       (\<exists>i \<in> set (interactions d). int_client_id i = Some (ent_id c) \<and>
                                    contact_date i \<ge> now - days 30))"
proof -
  obtain q where q: "client_query d u now so ''inactive'' = Inr q"
    by (simp add: client_query_Inr)
  have "int (length q) \<le> int (length (clients d))"
    using length_client_query [OF q] by simp
  then have len: "int (length q) \<le> int64_max" using assms(3) by simp
  show "((\<exists>pg \<ge> 1. \<exists>r. list_clients_page d u now pg pp so ''inactive'' = Inr r \<and>
                      c \<in> item_client ` set (page_items r)) \<longleftrightarrow>
       live_in_tenant u c \<and> default_owner u c \<and>
       \<not> (\<exists>i \<in> set (interactions d). int_client_id i = Some (ent_id c) \<and>
                                        contact_date i \<ge> now - days 90))"
    using c listed_iff [OF q assms(1,2) len, of c]
    by (simp add: set_client_query [OF q] set_activity_filter_inactive)
next
  assume so: "so \<noteq> ''activity''"
  obtain q where q: "client_query d u now so ''active'' = Inr q"
    using so by (simp add: client_query_Inr)
  have "int (length q) \<le> int (length (clients d))"
    using length_client_query [OF q] by simp
  then have len: "int (length q) \<le> int64_max" using assms(3) by simp
  show "((\<exists>pg \<ge> 1. \<exists>r. list_clients_page d u now pg pp so ''active'' = Inr r \<and>
                      c \<in> item_client ` set (page_items r)) \<longleftrightarrow>
       live_in_tenant u c \<and> default_owner u c \<and>
       (\<exists>i \<in> set (interactions d). int_client_id i = Some (ent_id c) \<and>
                                    contact_date i \<ge> now - days 30))"
    using c listed_iff [OF q assms(1,2) len, of c]
    by (simp add: set_client_query [OF q] set_activity_filter_active)
qed

lemma py_int_error: "py_int s = Inl e \<Longrightarrow> e = ValueError"
  by (auto simp: py_int_def Let_def split: if_splits option.splits)

lemma active_activity_args:
  "str_arg args ''activity_filter'' ''all'' = ''active'' \<and>
   valid_sort (str_arg args ''sort'' ''newest'') = ''activity'' \<longleftrightarrow>
   args ''activity_filter'' = Some ''active'' \<and> args ''sort'' = Some ''activity''"
  by (auto simp: str_arg_def valid_sort_def split: option.splits)

lemma demo_newest_query:
  "client_query d alice demo_now ''newest'' ''all'' = Inr [client5, client4, client1]"
  if "clients d = clients demo_db" "interactions d = interactions demo_db"
  using that
  by (simp add: client_query_def joined_tables_def
      apply_sort_def apply_activity_filter_def order_by_def
      live_in_tenant_def default_owner_def
      demo_db_def client1_def client2_def client3_def client4_def client5_def alice_def)

section \<open>Claims\<close>

text \<open>
  C1. The default lists. \<^verbatim>\<open>list_clients\<close> without arguments is page 1 of 20, newest first,
  no activity filter. For every user and every Client of the user's tenant, the client is
  on some page of the default list (any sort, any page size from 1 up to the largest
  integer of the store, which also bounds the number of rows of the table) if and only if
  it is not soft-deleted and it is assigned to the user, or unassigned and created by the
  user; when no more than 20 clients are visible the request without arguments returns
  exactly these on its one page. \<^verbatim>\<open>list_leads\<close>, which has no pages, returns a Lead of the
  user's tenant under the same condition. So a record assigned to someone else is not in
  its creator's default list.
\<close>

theorem default_list_visibility:
  assumes "1 \<le> pp" and "pp \<le> int64_max" and "int (length (clients d)) \<le> int64_max"
  shows "list_clients d u (\<lambda>k. None) now = list_clients_page d u now 1 20 ''newest'' ''all'' \<and>
    (\<forall>c \<in> set (clients d). tenant_id c = user_tenant_id u \<longrightarrow>
       ((\<exists>pg \<ge> 1. \<exists>r. list_clients_page d u now pg pp so ''all'' = Inr r \<and>
                       c \<in> item_client ` set (page_items r)) \<longleftrightarrow>
        deleted_at c = None \<and>
        (assigned_to c = Some (user_id u) \<or>
         (assigned_to c = None \<and> created_by c = user_id u)))) \<and>
    (\<forall>c \<in> set (clients d). tenant_id c = user_tenant_id u \<longrightarrow>
       (\<exists>r. list_clients d u (\<lambda>k. None) now = Inr r \<and>
            (total r \<le> 20 \<longrightarrow>
               (c \<in> item_client ` set (page_items r) \<longleftrightarrow>
                deleted_at c = None \<and>
                (assigned_to c = Some (user_id u) \<or>
                 (assigned_to c = None \<and> created_by c = user_id u)))))) \<and>
    (\<forall>l \<in> set (leads d). tenant_id l = user_tenant_id u \<longrightarrow>
       (l \<in> fst ` set (list_leads d u) \<longleftrightarrow>
        deleted_at l = None \<and>
        (assigned_to l = Some (user_id u) \<or>
         (assigned_to l = None \<and> created_by l = user_id u))))"
proof (intro conjI ballI impI)
  show "list_clients d u (\<lambda>k. None) now = list_clients_page d u now 1 20 ''newest'' ''all''"
    by (rule list_clients_default)
next
  fix c assume c: "c \<in> set (clients d)" "tenant_id c = user_tenant_id u"
  obtain q where q: "client_query d u now so ''all'' = Inr q"
    by (simp add: client_query_Inr)
  have "int (length q) \<le> int (length (clients d))"
    using length_client_query [OF q] by simp
  then have len: "int (length q) \<le> int64_max" using assms(3) by simp
  have "c \<in> set q \<longleftrightarrow>
        deleted_at c = None \<and>
        (assigned_to c = Some (user_id u) \<or>
         (assigned_to c = None \<and> created_by c = user_id u))"
    using c by (auto simp: set_client_query [OF q] set_activity_filter_all live_in_tenant_def
        default_owner_def)
  then show "(\<exists>pg \<ge> 1. \<exists>r. list_clients_page d u now pg pp so ''all'' = Inr r \<and>
                       c \<in> item_client ` set (page_items r)) \<longleftrightarrow>
        deleted_at c = None \<and>
        (assigned_to c = Some (user_id u) \<or>
         (assigned_to c = None \<and> created_by c = user_id u))"
    using listed_iff [OF q assms(1,2) len, of c] by simp
next
  fix c assume c: "c \<in> set (clients d)" "tenant_id c = user_tenant_id u"
  obtain rows where rows: "client_query d u now ''newest'' ''all'' = Inr rows"
    by (simp add: client_query_Inr)
  have q: "c \<in> set rows \<longleftrightarrow>
        deleted_at c = None \<and>
        (assigned_to c = Some (user_id u) \<or>
         (assigned_to c = None \<and> created_by c = user_id u))"
    using c by (auto simp: set_client_query [OF rows] set_activity_filter_all live_in_tenant_def
        default_owner_def)
  have "\<exists>r. list_clients_page d u now 1 20 ''newest'' ''all'' = Inr r \<and>
             map item_client (page_items r) = take (nat 20) (drop (nat ((1 - 1) * 20)) rows) \<and>
             total r = length rows \<and>
             page r = 1 \<and> per_page r = 20 \<and> sort_order r = ''newest'' \<and>
             activity_filter r = ''all''"
    using rows by (rule list_clients_page_ok) (simp_all add: int64_max_def)
  then obtain r where r: "list_clients_page d u now 1 20 ''newest'' ''all'' = Inr r"
    "map item_client (page_items r) = take 20 rows"
    "total r = length rows"
    by auto
  have "c \<in> item_client ` set (page_items r) \<longleftrightarrow>
                deleted_at c = None \<and>
                (assigned_to c = Some (user_id u) \<or>
                 (assigned_to c = None \<and> created_by c = user_id u))" if "total r \<le> 20"
  proof -
    have "map item_client (page_items r) = rows"
      using that r(2,3) by simp
    then have "item_client ` set (page_items r) = set rows"
      by (metis set_map)
    then show ?thesis using q by simp
  qed
  then show "\<exists>r. list_clients d u (\<lambda>k. None) now = Inr r \<and>
            (total r \<le> 20 \<longrightarrow>
               (c \<in> item_client ` set (page_items r) \<longleftrightarrow>
                deleted_at c = None \<and>
                (assigned_to c = Some (user_id u) \<or>
                 (assigned_to c = None \<and> created_by c = user_id u))))"
    using r(1) by (simp add: list_clients_default)
next
  fix l assume "l \<in> set (leads d)" "tenant_id l = user_tenant_id u"
  then show "l \<in> fst ` set (list_leads d u) \<longleftrightarrow>
        deleted_at l = None \<and>
        (assigned_to l = Some (user_id u) \<or>
         (assigned_to l = None \<and> created_by l = user_id u))"
    by (auto simp: list_leads_def default_owner_def image_iff)
qed


theorem default_list_visibility_witness:
  "(1::int) \<le> 20 \<and> 20 \<le> int64_max \<and> int (length (clients demo_db)) \<le> int64_max \<and>
   created_by client2 = user_id alice \<and> assigned_to client2 = Some (user_id bob) \<and>
   (\<exists>pg \<ge> 1. \<exists>r. list_clients_page demo_db alice demo_now pg 20 ''newest'' ''all'' = Inr r \<and>
                   client1 \<in> item_client ` set (page_items r)) \<and>
   \<not> (\<exists>pg \<ge> 1. \<exists>r. list_clients_page demo_db alice demo_now pg 20 ''newest'' ''all'' = Inr r \<and>
                     client2 \<in> item_client ` set (page_items r)) \<and>
   (\<exists>pg \<ge> 1. \<exists>r. list_clients_page demo_db bob demo_now pg 20 ''newest'' ''all'' = Inr r \<and>
                   client2 \<in> item_client ` set (page_items r)) \<and>
   \<not> (\<exists>pg \<ge> 1. \<exists>r. list_clients_page demo_db alice demo_now pg 20 ''newest'' ''all'' = Inr r \<and>
                     client3 \<in> item_client ` set (page_items r)) \<and>
   lead7 \<in> fst ` set (list_leads demo_db alice) \<and>
   lead7 \<notin> fst ` set (list_leads demo_db bob)"
proof -
  have pp: "(1::int) \<le> 20" "20 \<le> int64_max" "int (length (clients demo_db)) \<le> int64_max"
    by (simp_all add: int64_max_def demo_db_def)
  have mem: "client1 \<in> set (clients demo_db)" "client2 \<in> set (clients demo_db)"
    "client3 \<in> set (clients demo_db)" "lead7 \<in> set (leads demo_db)"
    by (simp_all add: demo_db_def)
  note defs = client1_def client2_def client3_def lead7_def alice_def bob_def
  have ten: "tenant_id client1 = user_tenant_id alice" "tenant_id client2 = user_tenant_id alice"
    "tenant_id client3 = user_tenant_id alice" "tenant_id client2 = user_tenant_id bob"
    "tenant_id lead7 = user_tenant_id alice" "tenant_id lead7 = user_tenant_id bob"
    by (simp_all add: defs)
  note ta = default_list_visibility [where d = demo_db and now = demo_now and so = "''newest''"
      and u = alice, OF pp]
  note tb = default_list_visibility [where d = demo_db and now = demo_now and so = "''newest''"
      and u = bob, OF pp]
  note ca = ta [THEN conjunct2, THEN conjunct1, THEN bspec, THEN mp]
  note cb = tb [THEN conjunct2, THEN conjunct1, THEN bspec, THEN mp]
  note la = ta [THEN conjunct2, THEN conjunct2, THEN conjunct2, THEN bspec, THEN mp]
  note lb = tb [THEN conjunct2, THEN conjunct2, THEN conjunct2, THEN bspec, THEN mp]
  have "\<exists>pg \<ge> 1. \<exists>r. list_clients_page demo_db alice demo_now pg 20 ''newest'' ''all'' = Inr r \<and>
                   client1 \<in> item_client ` set (page_items r)"
    using ca [OF mem(1) ten(1)] by (simp add: defs)
  moreover have "\<not> (\<exists>pg \<ge> 1. \<exists>r. list_clients_page demo_db alice demo_now pg 20 ''newest'' ''all'' = Inr r \<and>
                     client2 \<in> item_client ` set (page_items r))"
    using ca [OF mem(2) ten(2)] by (simp add: defs)
  moreover have "\<exists>pg \<ge> 1. \<exists>r. list_clients_page demo_db bob demo_now pg 20 ''newest'' ''all'' = Inr r \<and>
                   client2 \<in> item_client ` set (page_items r)"
    using cb [OF mem(2) ten(4)] by (simp add: defs)
  moreover have "\<not> (\<exists>pg \<ge> 1. \<exists>r. list_clients_page demo_db alice demo_now pg 20 ''newest'' ''all'' = Inr r \<and>
                     client3 \<in> item_client ` set (page_items r))"
    using ca [OF mem(3) ten(3)] by (simp add: defs)
  moreover have "lead7 \<in> fst ` set (list_leads demo_db alice)"
    using la [OF mem(4) ten(5)] by (simp add: defs)
  moreover have "lead7 \<notin> fst ` set (list_leads demo_db bob)"
    using lb [OF mem(4) ten(6)] by (simp add: defs)
  moreover have "created_by client2 = user_id alice" "assigned_to client2 = Some (user_id bob)"
    by (simp_all add: defs)
  ultimately show ?thesis using pp by simp
qed

text \<open>
  C2. The get of a Client or Lead by id. For a row of the table: a caller without the
  \<open>admin\<close> role receives it exactly when it is in the caller's tenant, not soft-deleted,
  and the caller is its creator or its assignee (a creator keeps the access after the row
  is assigned to someone else); a caller with the \<open>admin\<close> role receives every live row of
  the tenant; a successful get adds the \<open>viewed\<close> log row. In every other case, and for an
  id the table does not have, the answer is 404 and the store is unchanged.
\<close>

theorem get_by_id_visibility:
  assumes "distinct (map ent_id (clients d))" and "distinct (map ent_id (leads d))"
  shows "(\<forall>c \<in> set (clients d).
            get_client d u (ent_id c) =
              (if tenant_id c = user_tenant_id u \<and> deleted_at c = None \<and>
                  (is_admin u \<or> created_by c = user_id u \<or> assigned_to c = Some (user_id u))
               then (Inr c, d\<lparr>activity_logs := activity_logs d @ [viewed u ''client'' (ent_id c)]\<rparr>)
               else (Inl (ErrorResponse 404 ''Client not found''), d))) \<and>
         (\<forall>l \<in> set (leads d).
            get_lead d u (ent_id l) =
              (if tenant_id l = user_tenant_id u \<and> deleted_at l = None \<and>
                  (is_admin u \<or> created_by l = user_id u \<or> assigned_to l = Some (user_id u))
               then (Inr l, d\<lparr>activity_logs := activity_logs d @ [viewed u ''lead'' (ent_id l)]\<rparr>)
               else (Inl (ErrorResponse 404 ''Lead not found''), d))) \<and>
         (\<forall>i. i \<notin> ent_id ` set (clients d) \<longrightarrow>
            get_client d u i = (Inl (ErrorResponse 404 ''Client not found''), d)) \<and>
         (\<forall>i. i \<notin> ent_id ` set (leads d) \<longrightarrow>
            get_lead d u i = (Inl (ErrorResponse 404 ''Lead not found''), d))"
proof (intro conjI ballI allI impI)
  fix c assume "c \<in> set (clients d)"
  then show "get_client d u (ent_id c) =
              (if tenant_id c = user_tenant_id u \<and> deleted_at c = None \<and>
                  (is_admin u \<or> created_by c = user_id u \<or> assigned_to c = Some (user_id u))
               then (Inr c, d\<lparr>activity_logs := activity_logs d @ [viewed u ''client'' (ent_id c)]\<rparr>)
               else (Inl (ErrorResponse 404 ''Client not found''), d))"
    using get_entity_query [OF assms(1), where e = c and adm = "is_admin u" and u = u]
    by (simp add: get_client_def Let_def creator_or_assignee_def)
next
  fix l assume "l \<in> set (leads d)"
  then show "get_lead d u (ent_id l) =
              (if tenant_id l = user_tenant_id u \<and> deleted_at l = None \<and>
                  (is_admin u \<or> created_by l = user_id u \<or> assigned_to l = Some (user_id u))
               then (Inr l, d\<lparr>activity_logs := activity_logs d @ [viewed u ''lead'' (ent_id l)]\<rparr>)
               else (Inl (ErrorResponse 404 ''Lead not found''), d))"
    using get_entity_query [OF assms(2), where e = l and adm = "is_admin u" and u = u]
    by (simp add: get_lead_def Let_def creator_or_assignee_def)
next
  fix i assume "i \<notin> ent_id ` set (clients d)"
  then show "get_client d u i = (Inl (ErrorResponse 404 ''Client not found''), d)"
    using get_entity_absent [where i = i and xs = "clients d" and adm = "is_admin u" and u = u]
    by (simp add: get_client_def Let_def)
next
  fix i assume "i \<notin> ent_id ` set (leads d)"
  then show "get_lead d u i = (Inl (ErrorResponse 404 ''Lead not found''), d)"
    using get_entity_absent [where i = i and xs = "leads d" and adm = "is_admin u" and u = u]
    by (simp add: get_lead_def Let_def)
qed


theorem get_by_id_visibility_witness:
  "distinct (map ent_id (clients demo_db)) \<and> distinct (map ent_id (leads demo_db)) \<and>
   created_by client2 = user_id alice \<and> assigned_to client2 = Some (user_id bob) \<and>
   fst (get_client demo_db alice 2) = Inr client2 \<and>
   fst (get_client demo_db bob 2) = Inr client2 \<and>
   fst (get_client demo_db bob 1) = Inl (ErrorResponse 404 ''Client not found'') \<and>
   fst (get_client demo_db root 1) = Inr client1 \<and>
   fst (get_client demo_db root 3) = Inl (ErrorResponse 404 ''Client not found'') \<and>
   fst (get_client demo_db carol 1) = Inl (ErrorResponse 404 ''Client not found'') \<and>
   fst (get_client demo_db alice 99) = Inl (ErrorResponse 404 ''Client not found'') \<and>
   fst (get_lead demo_db bob 7) = Inl (ErrorResponse 404 ''Lead not found'') \<and>
   fst (get_lead demo_db root 7) = Inr lead7"
proof -
  have pk: "distinct (map ent_id (clients demo_db))" "distinct (map ent_id (leads demo_db))"
    by (simp_all add: demo_db_def client1_def client2_def client3_def client4_def client5_def
        lead7_def lead8_def lead9_def)
  have mem: "client1 \<in> set (clients demo_db)" "client2 \<in> set (clients demo_db)"
    "client3 \<in> set (clients demo_db)" "lead7 \<in> set (leads demo_db)"
    "99 \<notin> ent_id ` set (clients demo_db)"
    by (simp_all add: demo_db_def client1_def client2_def client3_def client4_def client5_def)
  have ids: "ent_id client1 = 1" "ent_id client2 = 2" "ent_id client3 = 3" "ent_id lead7 = 7"
    by (simp_all add: client1_def client2_def client3_def lead7_def)
  note defs = client1_def client2_def client3_def lead7_def alice_def bob_def root_def
    carol_def is_admin_def
  note t = get_by_id_visibility [where d = demo_db, OF pk]
  have "fst (get_client demo_db alice 2) = Inr client2"
    using t [where u = alice, THEN conjunct1, THEN bspec, OF mem(2)] by (simp add: defs)
  moreover have "fst (get_client demo_db bob 2) = Inr client2"
    using t [where u = bob, THEN conjunct1, THEN bspec, OF mem(2)] by (simp add: defs)
  moreover have "fst (get_client demo_db bob 1) = Inl (ErrorResponse 404 ''Client not found'')"
    using t [where u = bob, THEN conjunct1, THEN bspec, OF mem(1)] by (simp add: defs)
  moreover have "fst (get_client demo_db root 1) = Inr client1"
    using t [where u = root, THEN conjunct1, THEN bspec, OF mem(1)] by (simp add: defs)
  moreover have "fst (get_client demo_db root 3) = Inl (ErrorResponse 404 ''Client not found'')"
    using t [where u = root, THEN conjunct1, THEN bspec, OF mem(3)] by (simp add: defs)
  moreover have "fst (get_client demo_db carol 1) = Inl (ErrorResponse 404 ''Client not found'')"
    using t [where u = carol, THEN conjunct1, THEN bspec, OF mem(1)] by (simp add: defs)
  moreover have "fst (get_client demo_db alice 99) = Inl (ErrorResponse 404 ''Client not found'')"
    using t [where u = alice, THEN conjunct2, THEN conjunct2, THEN conjunct1, THEN spec,
        THEN mp, OF mem(5)] by simp
  moreover have "fst (get_lead demo_db bob 7) = Inl (ErrorResponse 404 ''Lead not found'')"
    using t [where u = bob, THEN conjunct2, THEN conjunct1, THEN bspec, OF mem(4)]
    by (simp add: defs)
  moreover have "fst (get_lead demo_db root 7) = Inr lead7"
    using t [where u = root, THEN conjunct2, THEN conjunct1, THEN bspec, OF mem(4)]
    by (simp add: defs)
  moreover have "created_by client2 = user_id alice" "assigned_to client2 = Some (user_id bob)"
    by (simp_all add: defs)
  ultimately show ?thesis using pk by simp
qed

text \<open>
  C3. Soft-deleted Clients and Leads, for every caller and role. No item of a list
  (\<^verbatim>\<open>list_clients\<close>, \<^verbatim>\<open>list_all_clients\<close>, \<^verbatim>\<open>list_assigned_clients\<close>, \<^verbatim>\<open>list_leads\<close>,
  \<^verbatim>\<open>list_all_leads_admin\<close>, \<^verbatim>\<open>list_assigned_leads\<close>) is soft-deleted, and every key of the
  statistics dictionary of a client page is the id of a live item of that page. A
  successful get returns a live row, and a successful assignment has a live row of the
  given id as its target. When every row of the given id is soft-deleted, the get answers
  404 and so does the assignment (\<^verbatim>\<open>assign_client\<close> answers 400 before it looks the client
  up when the request names no assignee); the store is unchanged.
\<close>

theorem soft_deleted_never_returned:
  "(\<forall>r. list_clients d u args now = Inr r \<longrightarrow>
        (\<forall>it \<in> set (page_items r). deleted_at (item_client it) = None) \<and>
        (\<forall>k s. interaction_stats (interactions d) (map ent_id (map item_client (page_items r))) k
                  = Some s \<longrightarrow>
               (\<exists>it \<in> set (page_items r). ent_id (item_client it) = k \<and>
                                           deleted_at (item_client it) = None))) \<and>
   (\<forall>r. list_all_clients d u args now = Inr r \<longrightarrow>
        (\<forall>it \<in> set (page_items r). deleted_at (item_client it) = None) \<and>
        (\<forall>k s. interaction_stats (interactions d) (map ent_id (map item_client (page_items r))) k
                  = Some s \<longrightarrow>
               (\<exists>it \<in> set (page_items r). ent_id (item_client it) = k \<and>
                                           deleted_at (item_client it) = None))) \<and>
   (\<forall>p \<in> set (list_assigned_clients d u). deleted_at (fst p) = None) \<and>
   (\<forall>p \<in> set (list_leads d u). deleted_at (fst p) = None) \<and>
   (\<forall>p \<in> set (list_all_leads_admin d u). deleted_at (fst p) = None) \<and>
   (\<forall>l \<in> set (list_assigned_leads d u). deleted_at l = None) \<and>
   (\<forall>c d'. get_client d u i = (Inr c, d') \<longrightarrow> deleted_at c = None) \<and>
   (\<forall>l d'. get_lead d u i = (Inr l, d') \<longrightarrow> deleted_at l = None) \<and>
   (\<forall>m d'. assign_client send d u i a now = (Inr m, d') \<longrightarrow>
        (\<exists>c \<in> set (clients d). ent_id c = i \<and> deleted_at c = None)) \<and>
   (\<forall>m d'. assign_lead send d u i a now = (Inr m, d') \<longrightarrow>
        (\<exists>l \<in> set (leads d). ent_id l = i \<and> deleted_at l = None)) \<and>
   ((\<forall>c \<in> set (clients d). ent_id c = i \<longrightarrow> deleted_at c \<noteq> None) \<longrightarrow>
      get_client d u i = (Inl (ErrorResponse 404 ''Client not found''), d) \<and>
      assign_client send d u i a now =
        (if truthy_id a then Inl (ErrorResponse 404 ''Client not found'')
         else Inl (ErrorResponse 400 ''Missing assigned_to''), d)) \<and>
   ((\<forall>l \<in> set (leads d). ent_id l = i \<longrightarrow> deleted_at l \<noteq> None) \<longrightarrow>
      get_lead d u i = (Inl (ErrorResponse 404 ''Lead not found''), d) \<and>
      assign_lead send d u i a now = (Inl (ErrorResponse 404 ''Lead not found''), d))"
proof (intro conjI allI impI ballI)
  fix r it
  assume "list_clients d u args now = Inr r" "it \<in> set (page_items r)"
  then show "deleted_at (item_client it) = None"
    using list_clients_items_live live_in_tenant_def by blast
next
  fix r k s
  assume r: "list_clients d u args now = Inr r"
    and "interaction_stats (interactions d) (map ent_id (map item_client (page_items r))) k = Some s"
  then have "k \<in> set (map ent_id (map item_client (page_items r)))"
    using interaction_stats_key by blast
  then obtain it where it: "it \<in> set (page_items r)" "ent_id (item_client it) = k" by auto
  then have "deleted_at (item_client it) = None"
    using r list_clients_items_live live_in_tenant_def by blast
  with it show "\<exists>it \<in> set (page_items r). ent_id (item_client it) = k \<and>
                                           deleted_at (item_client it) = None"
    by blast
next
  fix r it
  assume "list_all_clients d u args now = Inr r" "it \<in> set (page_items r)"
  then show "deleted_at (item_client it) = None"
    using list_all_clients_items_live live_in_tenant_def by blast
next
  fix r k s
  assume r: "list_all_clients d u args now = Inr r"
    and "interaction_stats (interactions d) (map ent_id (map item_client (page_items r))) k = Some s"
  then have "k \<in> set (map ent_id (map item_client (page_items r)))"
    using interaction_stats_key by blast
  then obtain it where it: "it \<in> set (page_items r)" "ent_id (item_client it) = k" by auto
  then have "deleted_at (item_client it) = None"
    using r list_all_clients_items_live live_in_tenant_def by blast
  with it show "\<exists>it \<in> set (page_items r). ent_id (item_client it) = k \<and>
                                           deleted_at (item_client it) = None"
    by blast
next
  fix p assume "p \<in> set (list_assigned_clients d u)"
  then show "deleted_at (fst p) = None" by (auto simp: list_assigned_clients_def)
next
  fix p assume "p \<in> set (list_leads d u)"
  then show "deleted_at (fst p) = None" by (auto simp: list_leads_def)
next
  fix p assume "p \<in> set (list_all_leads_admin d u)"
  then show "deleted_at (fst p) = None" by (auto simp: list_all_leads_admin_def)
next
  fix l assume "l \<in> set (list_assigned_leads d u)"
  then show "deleted_at l = None" by (simp add: list_assigned_leads_def)
next
  fix c d' assume "get_client d u i = (Inr c, d')"
  then show "deleted_at c = None" using get_client_live by blast
next
  fix l d' assume "get_lead d u i = (Inr l, d')"
  then show "deleted_at l = None" using get_lead_live by blast
next
  fix m d' assume "assign_client send d u i a now = (Inr m, d')"
  then show "\<exists>c \<in> set (clients d). ent_id c = i \<and> deleted_at c = None"
    using assign_client_target by blast
next
  fix m d' assume "assign_lead send d u i a now = (Inr m, d')"
  then show "\<exists>l \<in> set (leads d). ent_id l = i \<and> deleted_at l = None"
    using assign_lead_target by blast
next
  assume "\<forall>c \<in> set (clients d). ent_id c = i \<longrightarrow> deleted_at c \<noteq> None"
  then have e: "filter (\<lambda>e. ent_id e = i \<and> tenant_id e = user_tenant_id u \<and> deleted_at e = None)
                  (clients d) = []"
    by (rule no_live_row)
  show "get_client d u i = (Inl (ErrorResponse 404 ''Client not found''), d)"
    by (simp add: get_client_def e first_def)
  show "assign_client send d u i a now =
        (if truthy_id a then Inl (ErrorResponse 404 ''Client not found'')
         else Inl (ErrorResponse 400 ''Missing assigned_to''), d)"
    by (simp add: assign_client_def e first_def)
next
  assume "\<forall>l \<in> set (leads d). ent_id l = i \<longrightarrow> deleted_at l \<noteq> None"
  then have e: "filter (\<lambda>e. ent_id e = i \<and> tenant_id e = user_tenant_id u \<and> deleted_at e = None)
                  (leads d) = []"
    by (rule no_live_row)
  show "get_lead d u i = (Inl (ErrorResponse 404 ''Lead not found''), d)"
    by (simp add: get_lead_def e first_def)
  show "assign_lead send d u i a now = (Inl (ErrorResponse 404 ''Lead not found''), d)"
    by (simp add: assign_lead_def e first_def)
qed


theorem soft_deleted_never_returned_witness:
  "deleted_at client3 \<noteq> None \<and> deleted_at lead9 \<noteq> None \<and>
   client3 \<in> set (clients demo_db) \<and> lead9 \<in> set (leads demo_db) \<and>
   get_client demo_db root 3 = (Inl (ErrorResponse 404 ''Client not found''), demo_db) \<and>
   assign_client (\<lambda>n. Delivered) demo_db root 3 (Some 2) demo_now =
     (Inl (ErrorResponse 404 ''Client not found''), demo_db) \<and>
   get_lead demo_db root 9 = (Inl (ErrorResponse 404 ''Lead not found''), demo_db) \<and>
   assign_lead (\<lambda>n. Delivered) demo_db root 9 (Some 2) demo_now =
     (Inl (ErrorResponse 404 ''Lead not found''), demo_db) \<and>
   (\<exists>r. list_all_clients demo_db root no_args demo_now = Inr r \<and>
        map item_client (page_items r) = [client5, client4, client2, client1] \<and>
        list_all (\<lambda>it. deleted_at (item_client it) = None) (page_items r)) \<and>
   list_all (\<lambda>p. deleted_at (fst p) = None) (list_all_leads_admin demo_db root)"
proof -
  note t = soft_deleted_never_returned [where d = demo_db and u = root and now = demo_now
      and send = "\<lambda>n. Delivered" and a = "Some 2" and args = no_args]
  have del: "deleted_at client3 \<noteq> None" "deleted_at lead9 \<noteq> None"
    "client3 \<in> set (clients demo_db)" "lead9 \<in> set (leads demo_db)"
    by (simp_all add: client3_def lead9_def demo_db_def)
  have c3: "\<forall>c \<in> set (clients demo_db). ent_id c = 3 \<longrightarrow> deleted_at c \<noteq> None"
    by (simp add: demo_db_def client1_def client2_def client3_def client4_def client5_def)
  have l9: "\<forall>l \<in> set (leads demo_db). ent_id l = 9 \<longrightarrow> deleted_at l \<noteq> None"
    by (simp add: demo_db_def lead7_def lead8_def lead9_def)
  have tr: "truthy_id (Some 2)" by (simp add: truthy_id_def)
  note c = t [where i = 3, THEN conjunct2, THEN conjunct2, THEN conjunct2, THEN conjunct2,
      THEN conjunct2, THEN conjunct2, THEN conjunct2, THEN conjunct2, THEN conjunct2,
      THEN conjunct2, THEN conjunct1, THEN mp, OF c3]
  note l = t [where i = 9, THEN conjunct2, THEN conjunct2, THEN conjunct2, THEN conjunct2,
      THEN conjunct2, THEN conjunct2, THEN conjunct2, THEN conjunct2, THEN conjunct2,
      THEN conjunct2, THEN conjunct2, THEN mp, OF l9]
  have gc: "get_client demo_db root 3 = (Inl (ErrorResponse 404 ''Client not found''), demo_db)"
    using c by (rule conjunct1)
  have ac: "assign_client (\<lambda>n. Delivered) demo_db root 3 (Some 2) demo_now =
     (Inl (ErrorResponse 404 ''Client not found''), demo_db)"
    using c [THEN conjunct2] tr by simp
  have gl: "get_lead demo_db root 9 = (Inl (ErrorResponse 404 ''Lead not found''), demo_db)"
    using l by (rule conjunct1)
  have al: "assign_lead (\<lambda>n. Delivered) demo_db root 9 (Some 2) demo_now =
     (Inl (ErrorResponse 404 ''Lead not found''), demo_db)"
    using l by (rule conjunct2)
  from demo_all_clients obtain r where r: "list_all_clients demo_db root no_args demo_now = Inr r"
    "map item_client (page_items r) = [client5, client4, client2, client1]"
    by (elim exE conjE)
  have "\<forall>it \<in> set (page_items r). deleted_at (item_client it) = None"
    using t [where i = 3, THEN conjunct2, THEN conjunct1, THEN spec, THEN mp, OF r(1)]
    by (rule conjunct1)
  then have live: "list_all (\<lambda>it. deleted_at (item_client it) = None) (page_items r)"
    by (simp add: list_all_iff)
  have "\<forall>p \<in> set (list_all_leads_admin demo_db root). deleted_at (fst p) = None"
    using t [where i = 3, THEN conjunct2, THEN conjunct2, THEN conjunct2, THEN conjunct2,
        THEN conjunct1] .
  then have leads_live: "list_all (\<lambda>p. deleted_at (fst p) = None) (list_all_leads_admin demo_db root)"
    by (simp add: list_all_iff)
  have ex: "\<exists>r. list_all_clients demo_db root no_args demo_now = Inr r \<and>
        map item_client (page_items r) = [client5, client4, client2, client1] \<and>
        list_all (\<lambda>it. deleted_at (item_client it) = None) (page_items r)"
    using r live by (intro exI [of _ r] conjI)
  from del gc ac gl al ex leads_live show ?thesis by (intro conjI)
qed

text \<open>
  C4. The claim: with \<open>activity_filter = active\<close> the client list returns exactly the
  visible clients that have an Interaction with \<open>contact_date \<ge> now - 30 days\<close>. The route
  builds that query, and for \<open>sort = activity\<close> it then joins the interactions a second
  time under the same name: the store refuses the statement, and the request
  \<^verbatim>\<open>?activity_filter=active&sort=activity\<close> fails, for every store, user and time, in
  \<^verbatim>\<open>list_clients\<close> and in \<^verbatim>\<open>list_all_clients\<close>. In the example store \<open>client1\<close> is visible
  to alice and has a contact ten days old; the request fails all the same, while the
  request that differs only in leaving the sort out returns \<open>client1\<close> and nothing else.
  Under every other sort, and for \<open>inactive\<close> under every sort, the filter is the claimed
  one (\<open>activity_filter_pages\<close>).
\<close>

theorem active_filter_activity_sort_fails:
  "list_clients d u active_by_activity now = Inl (Raised StoreError) \<and>
   list_all_clients d u active_by_activity now = Inl (Raised StoreError) \<and>
   list_clients demo_db alice active_by_activity demo_now = Inl (Raised StoreError) \<and>
   client1 \<in> set (clients demo_db) \<and> live_in_tenant alice client1 \<and>
   default_owner alice client1 \<and>
   contact1 \<in> set (interactions demo_db) \<and> int_client_id contact1 = Some (ent_id client1) \<and>
   contact_date contact1 \<ge> demo_now - days 30 \<and>
   map_sum id (\<lambda>r. map item_client (page_items r))
     (list_clients demo_db alice active_only demo_now) = Inr [client1]"
proof -
  have a: "int_arg active_by_activity ''page'' 1 = Inr 1"
    "int_arg active_by_activity ''per_page'' 20 = Inr 20"
    "valid_sort (str_arg active_by_activity ''sort'' ''newest'') = ''activity''"
    "str_arg active_by_activity ''activity_filter'' ''all'' = ''active''"
    by (simp_all add: int_arg_def str_arg_def valid_sort_def active_by_activity_def)
  have f: "list_clients d u active_by_activity now = Inl (Raised StoreError)" for d u now
    by (simp add: list_clients_def a list_clients_page_def client_query_active_activity)
  have g: "list_all_clients d u active_by_activity now = Inl (Raised StoreError)"
    by (simp add: list_all_clients_def a all_client_query_def joined_tables_def)
  have b: "int_arg active_only ''page'' 1 = Inr 1"
    "int_arg active_only ''per_page'' 20 = Inr 20"
    "valid_sort (str_arg active_only ''sort'' ''newest'') = ''newest''"
    "str_arg active_only ''activity_filter'' ''all'' = ''active''"
    by (simp_all add: int_arg_def str_arg_def valid_sort_def active_only_def)
  have "\<exists>r. list_clients_page demo_db alice demo_now 1 20 ''newest'' ''active'' = Inr r \<and>
             map item_client (page_items r) = take (nat 20) (drop (nat ((1 - 1) * 20)) [client1]) \<and>
             total r = length [client1] \<and>
             page r = 1 \<and> per_page r = 20 \<and> sort_order r = ''newest'' \<and>
             activity_filter r = ''active''"
    using demo_active_query by (rule list_clients_page_ok) (simp_all add: int64_max_def)
  then obtain r where r: "list_clients_page demo_db alice demo_now 1 20 ''newest'' ''active'' = Inr r"
    "map item_client (page_items r) = [client1]"
    by auto
  have h: "map_sum id (\<lambda>r. map item_client (page_items r))
     (list_clients demo_db alice active_only demo_now) = Inr [client1]"
    by (simp add: list_clients_def b r)
  have v: "client1 \<in> set (clients demo_db)" "live_in_tenant alice client1"
    "default_owner alice client1" "contact1 \<in> set (interactions demo_db)"
    "int_client_id contact1 = Some (ent_id client1)" "contact_date contact1 \<ge> demo_now - days 30"
    by (simp_all add: demo_db_def live_in_tenant_def default_owner_def client1_def alice_def
        contact1_def demo_now_def days_def)
  from f g f v h show ?thesis by (intro conjI)
qed

text \<open>
  C5. With \<open>sort = activity\<close> every returned page is ordered by the maximum
  \<open>contact_date\<close> of each client's Interactions, descending, a client without Interactions
  having the lowest key: in the page, whatever stands after a client without Interactions
  has none either. Such clients are not excluded: the sorted query has the rows of the
  same query under any other sort, and \<open>total\<close> counts them. The key of a client is NULL
  exactly when no Interaction points to it, and otherwise the greatest \<open>contact_date\<close>
  among those that do.
\<close>

theorem activity_sort_order:
  assumes res: "list_clients_page d u now pg pp ''activity'' act = Inr r"
  shows "sorted_wrt (\<lambda>a b. null_lowest_le (\<le>) (last_contact (interactions d) b)
                                            (last_contact (interactions d) a))
           (map item_client (page_items r)) \<and>
         (\<forall>i j. i < j \<and> j < length (page_items r) \<and>
                 last_contact (interactions d) (item_client (page_items r ! i)) = None \<longrightarrow>
                 last_contact (interactions d) (item_client (page_items r ! j)) = None) \<and>
         (\<exists>q q'. client_query d u now ''activity'' act = Inr q \<and>
                 client_query d u now ''newest'' act = Inr q' \<and>
                 set q = set q' \<and> total r = length q') \<and>
         (\<forall>c. last_contact (interactions d) c = None \<longleftrightarrow>
                \<not> (\<exists>i \<in> set (interactions d). int_client_id i = Some (ent_id c))) \<and>
         (\<forall>c m. last_contact (interactions d) c = Some m \<longrightarrow>
                (\<exists>i \<in> set (interactions d). int_client_id i = Some (ent_id c) \<and>
                                             contact_date i = m) \<and>
                (\<forall>i \<in> set (interactions d). int_client_id i = Some (ent_id c) \<longrightarrow>
                                             contact_date i \<le> m))"
proof (intro conjI allI impI)
  let ?le = "\<lambda>a b. null_lowest_le (\<le>) (last_contact (interactions d) b)
                                        (last_contact (interactions d) a)"
  let ?rows = "apply_activity_filter (interactions d) now act
                 (filter (\<lambda>c. live_in_tenant u c \<and> default_owner u c) (clients d))"
  from list_clients_page_rows [OF res] obtain q n m where
    q: "client_query d u now ''activity'' act = Inr q"
    and items: "map item_client (page_items r) = take n (drop m q)"
    and tot: "total r = length q"
    by blast
  have act: "act \<noteq> ''active''" and q_eq: "q = apply_sort (interactions d) ''activity'' ?rows"
    using client_query_InrD [OF q] by simp_all
  have q': "client_query d u now ''newest'' act =
              Inr (apply_sort (interactions d) ''newest'' ?rows)"
    by (rule client_query_Inr) simp
  have "sorted_wrt ?le q"
    unfolding q_eq by (rule sorted_apply_sort_activity)
  then have "sorted_wrt ?le (take n (drop m q))"
    by (intro sorted_wrt_take sorted_wrt_drop)
  then show sorted: "sorted_wrt ?le (map item_client (page_items r))"
    by (simp add: items)
  have "set q = set (apply_sort (interactions d) ''newest'' ?rows)"
    by (simp add: q_eq set_apply_sort)
  moreover have "total r = length (apply_sort (interactions d) ''newest'' ?rows)"
    by (simp add: tot q_eq length_apply_sort)
  ultimately show "\<exists>q q'. client_query d u now ''activity'' act = Inr q \<and>
                 client_query d u now ''newest'' act = Inr q' \<and>
                 set q = set q' \<and> total r = length q'"
    using q q' by (intro exI conjI)
  show "last_contact (interactions d) c = None \<longleftrightarrow>
                \<not> (\<exists>i \<in> set (interactions d). int_client_id i = Some (ent_id c))" for c
    by (rule last_contact_None)
  show "\<exists>i \<in> set (interactions d). int_client_id i = Some (ent_id c) \<and> contact_date i = m"
    if "last_contact (interactions d) c = Some m" for c m
    using last_contact_Some [OF that] by blast
  show "\<forall>i \<in> set (interactions d). int_client_id i = Some (ent_id c) \<longrightarrow> contact_date i \<le> m"
    if "last_contact (interactions d) c = Some m" for c m
    using last_contact_Some [OF that] by blast
  show "last_contact (interactions d) (item_client (page_items r ! j)) = None"
    if h: "i < j \<and> j < length (page_items r) \<and>
           last_contact (interactions d) (item_client (page_items r ! i)) = None" for i j
  proof -
    from h have lt: "i < j" "j < length (map item_client (page_items r))" by simp_all
    have "?le (map item_client (page_items r) ! i) (map item_client (page_items r) ! j)"
      using sorted lt by (rule sorted_wrt_nth_later)
    then have "null_lowest_le (\<le>) (last_contact (interactions d) (item_client (page_items r ! j)))
                 (last_contact (interactions d) (item_client (page_items r ! i)))"
      using h by simp
    then show ?thesis using h by (simp add: null_lowest_le_def split: option.splits)
  qed
qed


theorem activity_sort_order_witness:
  "\<exists>r. list_clients_page demo_db alice demo_now 1 20 ''activity'' ''all'' = Inr r \<and>
       map item_client (page_items r) = [client1, client4, client5] \<and>
       map (last_contact (interactions demo_db)) (map item_client (page_items r)) =
         [Some 9136000, Some 1360000, None] \<and>
       total r = 3 \<and>
       sorted_wrt (\<lambda>a b. null_lowest_le (\<le>) (last_contact (interactions demo_db) b)
                                            (last_contact (interactions demo_db) a))
           (map item_client (page_items r))"
proof -
  have "\<exists>r. list_clients_page demo_db alice demo_now 1 20 ''activity'' ''all'' = Inr r \<and>
             map item_client (page_items r) =
               take (nat 20) (drop (nat ((1 - 1) * 20)) [client1, client4, client5]) \<and>
             total r = length [client1, client4, client5] \<and>
             page r = 1 \<and> per_page r = 20 \<and> sort_order r = ''activity'' \<and>
             activity_filter r = ''all''"
    using demo_activity_query by (rule list_clients_page_ok) (simp_all add: int64_max_def)
  then obtain r where r: "list_clients_page demo_db alice demo_now 1 20 ''activity'' ''all'' = Inr r"
    "map item_client (page_items r) = [client1, client4, client5]" "total r = 3"
    by auto
  have keys: "map (last_contact (interactions demo_db)) [client1, client4, client5] =
         [Some 9136000, Some 1360000, None]"
    by (simp add: last_contact_def demo_db_def client1_def client4_def client5_def
        contact1_def contact4_def)
  have keys': "map (last_contact (interactions demo_db)) (map item_client (page_items r)) =
         [Some 9136000, Some 1360000, None]"
    unfolding r(2) by (rule keys)
  have "sorted_wrt (\<lambda>a b. null_lowest_le (\<le>) (last_contact (interactions demo_db) b)
                                            (last_contact (interactions demo_db) a))
           (map item_client (page_items r))"
    using activity_sort_order [OF r(1)] by (rule conjunct1)
  with r keys' show ?thesis by (intro exI [of _ r] conjI)
qed

text \<open>
  C6. The claim: \<open>page\<close> and \<open>per_page\<close> default to 1 and 20 when absent or non-numeric, a
  page below 1 is clamped to 1, and no list returns more than \<open>per_page\<close> items. The code
  has no such handling. With \<^verbatim>\<open>page=abc\<close> the conversion \<^verbatim>\<open>int(...)\<close> raises \<^verbatim>\<open>ValueError\<close>
  and the request fails. With \<^verbatim>\<open>page=0\<close> the offset is \<open>-20\<close>: where the store rejects a
  negative OFFSET the request fails, and where the store ignores it the response carries
  page 0, while the request without arguments carries page 1. \<^verbatim>\<open>list_leads\<close> reads
  neither parameter and returns both leads of alice, whatever \<open>per_page\<close> the request
  carries.
\<close>

theorem list_paging_counterexample:
  "list_clients demo_db alice page_abc demo_now = Inl (Raised ValueError) \<and>
   on_negative demo_db = Rejected \<and>
   list_clients demo_db alice page_zero demo_now = Inl (Raised StoreError) \<and>
   on_negative demo_db_lenient = Ignored \<and>
   map_sum id page (list_clients demo_db_lenient alice page_zero demo_now) = Inr 0 \<and>
   map_sum id page (list_clients demo_db_lenient alice no_args demo_now) = Inr 1 \<and>
   length (list_leads demo_db alice) = 2"
proof -
  have a: "list_clients demo_db alice page_abc demo_now = Inl (Raised ValueError)"
    by (simp add: list_clients_def int_arg_def page_abc_def py_int_abc)
  have n: "on_negative demo_db = Rejected" "on_negative demo_db_lenient = Ignored"
    by (simp_all add: demo_db_def demo_db_lenient_def)
  have q: "client_query demo_db alice demo_now ''newest'' ''all'' = Inr [client5, client4, client1]"
    by (rule demo_newest_query) simp_all
  have q': "client_query demo_db_lenient alice demo_now ''newest'' ''all'' =
              Inr [client5, client4, client1]"
    by (rule demo_newest_query) (simp_all add: demo_db_lenient_def)
  have z: "list_clients demo_db alice page_zero demo_now = Inl (Raised StoreError)"
    by (simp add: list_clients_def int_arg_def str_arg_def valid_sort_def page_zero_def py_int_0
        list_clients_page_def q n offset_limit_def in_int64_def int64_max_def)
  have z': "map_sum id page (list_clients demo_db_lenient alice page_zero demo_now) = Inr 0"
    by (simp add: list_clients_def int_arg_def str_arg_def valid_sort_def page_zero_def py_int_0
        list_clients_page_def q' n offset_limit_def in_int64_def int64_max_def Let_def)
  have d: "map_sum id page (list_clients demo_db_lenient alice no_args demo_now) = Inr 1"
    by (simp add: list_clients_def int_arg_def str_arg_def valid_sort_def no_args_def
        list_clients_page_def q' n offset_limit_def in_int64_def int64_max_def Let_def)
  have l: "length (list_leads demo_db alice) = 2"
    by (simp add: list_leads_def demo_db_def lead7_def lead8_def lead9_def alice_def default_owner_def)
  from a n(1) z n(2) z' d l show ?thesis by (intro conjI)
qed

text \<open>
  C6, as the code has it, for \<^verbatim>\<open>list_clients\<close>: \<open>page\<close> and \<open>per_page\<close> are 1 and 20 when the
  parameter is absent; a value that \<^verbatim>\<open>int\<close> rejects makes the request fail with
  \<^verbatim>\<open>ValueError\<close>; for \<open>page \<ge> 1\<close> and \<open>per_page \<ge> 0\<close>, with \<open>(page - 1) * per_page\<close> and
  \<open>per_page\<close> no larger than the largest integer of the store, the response echoes both as
  given and holds the rows of the sorted query from offset \<open>(page - 1) * per_page\<close> on,
  \<open>per_page\<close> of them at most, with \<open>total\<close> the count before paging. Nothing is said of a
  page below 1, of a negative \<open>per_page\<close>, or of the request that combines the \<open>active\<close>
  filter with the \<open>activity\<close> sort.
\<close>

theorem list_clients_paging:
  shows "(args ''page'' = None \<longrightarrow> int_arg args ''page'' 1 = Inr 1) \<and>
         (args ''per_page'' = None \<longrightarrow> int_arg args ''per_page'' 20 = Inr 20) \<and>
         (\<forall>s e. args ''page'' = Some s \<and> py_int s = Inl e \<longrightarrow>
                 e = ValueError \<and> list_clients d u args now = Inl (Raised ValueError)) \<and>
         (\<forall>pg s e. int_arg args ''page'' 1 = Inr pg \<and> args ''per_page'' = Some s \<and>
                    py_int s = Inl e \<longrightarrow>
                 e = ValueError \<and> list_clients d u args now = Inl (Raised ValueError)) \<and>
         (\<forall>pg pp. int_arg args ''page'' 1 = Inr pg \<and> int_arg args ''per_page'' 20 = Inr pp \<and>
                   1 \<le> pg \<and> 0 \<le> pp \<and> (pg - 1) * pp \<le> int64_max \<and> pp \<le> int64_max \<and>
                   \<not> (args ''activity_filter'' = Some ''active'' \<and>
                      args ''sort'' = Some ''activity'') \<longrightarrow>
            (\<exists>r q. client_query d u now (valid_sort (str_arg args ''sort'' ''newest''))
                      (str_arg args ''activity_filter'' ''all'') = Inr q \<and>
                    list_clients d u args now = Inr r \<and>
                    map item_client (page_items r) =
                      take (nat pp) (drop (nat ((pg - 1) * pp)) q) \<and>
                    length (page_items r) \<le> nat pp \<and>
                    page r = pg \<and> per_page r = pp \<and>
                    total r = length q))"
proof (intro conjI allI impI)
  show "int_arg args ''page'' 1 = Inr 1" if "args ''page'' = None"
    using that by (simp add: int_arg_def)
  show "int_arg args ''per_page'' 20 = Inr 20" if "args ''per_page'' = None"
    using that by (simp add: int_arg_def)
  show "e = ValueError" if "args ''page'' = Some s \<and> py_int s = Inl e" for s e
    using that py_int_error by blast
  show "list_clients d u args now = Inl (Raised ValueError)"
    if "args ''page'' = Some s \<and> py_int s = Inl e" for s e
    using that py_int_error [of s e] by (simp add: list_clients_def int_arg_def)
  show "e = ValueError"
    if "int_arg args ''page'' 1 = Inr pg \<and> args ''per_page'' = Some s \<and> py_int s = Inl e"
    for pg s e
    using that py_int_error by blast
  show "list_clients d u args now = Inl (Raised ValueError)"
    if "int_arg args ''page'' 1 = Inr pg \<and> args ''per_page'' = Some s \<and> py_int s = Inl e"
    for pg s e
    using that py_int_error [of s e] by (simp add: list_clients_def int_arg_def)
  show "\<exists>r q. client_query d u now (valid_sort (str_arg args ''sort'' ''newest''))
                      (str_arg args ''activity_filter'' ''all'') = Inr q \<and>
                    list_clients d u args now = Inr r \<and>
                    map item_client (page_items r) =
                      take (nat pp) (drop (nat ((pg - 1) * pp)) q) \<and>
                    length (page_items r) \<le> nat pp \<and>
                    page r = pg \<and> per_page r = pp \<and>
                    total r = length q"
    if h: "int_arg args ''page'' 1 = Inr pg \<and> int_arg args ''per_page'' 20 = Inr pp \<and>
           1 \<le> pg \<and> 0 \<le> pp \<and> (pg - 1) * pp \<le> int64_max \<and> pp \<le> int64_max \<and>
           \<not> (args ''activity_filter'' = Some ''active'' \<and> args ''sort'' = Some ''activity'')"
    for pg pp
  proof -
    let ?so = "valid_sort (str_arg args ''sort'' ''newest'')"
    let ?act = "str_arg args ''activity_filter'' ''all''"
    from h have "\<not> (?act = ''active'' \<and> ?so = ''activity'')"
      by (simp only: active_activity_args not_False_eq_True)
    then obtain q where q: "client_query d u now ?so ?act = Inr q"
      by (simp add: client_query_Inr)
    from h have b: "1 \<le> pg" "0 \<le> pp" "(pg - 1) * pp \<le> int64_max" "pp \<le> int64_max"
      by simp_all
    have "\<exists>r. list_clients_page d u now pg pp ?so ?act = Inr r \<and>
             map item_client (page_items r) = take (nat pp) (drop (nat ((pg - 1) * pp)) q) \<and>
             total r = length q \<and>
             page r = pg \<and> per_page r = pp \<and> sort_order r = ?so \<and> activity_filter r = ?act"
      using q b by (rule list_clients_page_ok)
    then obtain r where r: "list_clients_page d u now pg pp ?so ?act = Inr r"
      "map item_client (page_items r) = take (nat pp) (drop (nat ((pg - 1) * pp)) q)"
      "total r = length q" "page r = pg" "per_page r = pp"
      by (elim exE conjE)
    have "length (map item_client (page_items r)) \<le> nat pp"
      unfolding r(2) by simp
    then have len: "length (page_items r) \<le> nat pp" by simp
    have "list_clients d u args now = Inr r"
      using h r(1) by (simp add: list_clients_def)
    with q r len show ?thesis by (intro exI [of _ r] exI [of _ q] conjI)
  qed
qed

theorem list_clients_paging_witness:
  "page_2_of_1 ''page'' = Some ''2'' \<and> py_int ''2'' = Inr 2 \<and>
   page_2_of_1 ''per_page'' = Some ''1'' \<and> py_int ''1'' = Inr 1 \<and>
   page_2_of_1 ''activity_filter'' = None \<and> (2 - 1) * 1 \<le> int64_max \<and>
   page_abc ''page'' = Some ''abc'' \<and> py_int ''abc'' = Inl ValueError \<and>
   list_clients demo_db alice page_abc demo_now = Inl (Raised ValueError) \<and>
   (\<exists>r. list_clients demo_db alice page_2_of_1 demo_now = Inr r \<and>
        map item_client (page_items r) = [client4] \<and> length (page_items r) \<le> 1 \<and>
        page r = 2 \<and> per_page r = 1 \<and> total r = 3)"
proof -
  note t = list_clients_paging [where d = demo_db and u = alice and now = demo_now]
  have abc: "page_abc ''page'' = Some ''abc'' \<and> py_int ''abc'' = Inl ValueError"
    by (simp add: page_abc_def py_int_abc)
  have e: "list_clients demo_db alice page_abc demo_now = Inl (Raised ValueError)"
    using t [where args = page_abc, THEN conjunct2, THEN conjunct2, THEN conjunct1,
        THEN spec, THEN spec, THEN mp, OF abc] by (rule conjunct2)
  have args: "int_arg page_2_of_1 ''page'' 1 = Inr 2 \<and> int_arg page_2_of_1 ''per_page'' 20 = Inr 1 \<and>
      (1::int) \<le> 2 \<and> (0::int) \<le> 1 \<and> (2 - 1) * 1 \<le> int64_max \<and> 1 \<le> int64_max \<and>
      \<not> (page_2_of_1 ''activity_filter'' = Some ''active'' \<and>
         page_2_of_1 ''sort'' = Some ''activity'')"
    by (simp add: int_arg_def page_2_of_1_def py_int_1 py_int_2 int64_max_def)
  have s: "valid_sort (str_arg page_2_of_1 ''sort'' ''newest'') = ''newest''"
    "str_arg page_2_of_1 ''activity_filter'' ''all'' = ''all''"
    by (simp_all add: valid_sort_def str_arg_def page_2_of_1_def)
  have q: "client_query demo_db alice demo_now ''newest'' ''all'' = Inr [client5, client4, client1]"
    by (rule demo_newest_query) simp_all
  from t [where args = page_2_of_1, THEN conjunct2, THEN conjunct2, THEN conjunct2,
        THEN conjunct2, THEN spec, THEN spec, THEN mp, OF args]
  obtain r q' where r: "client_query demo_db alice demo_now
                          (valid_sort (str_arg page_2_of_1 ''sort'' ''newest''))
                          (str_arg page_2_of_1 ''activity_filter'' ''all'') = Inr q'"
    "list_clients demo_db alice page_2_of_1 demo_now = Inr r"
    "map item_client (page_items r) = take (nat 1) (drop (nat ((2 - 1) * 1)) q')"
    "length (page_items r) \<le> nat 1" "page r = 2" "per_page r = 1" "total r = length q'"
    by (elim exE conjE)
  from r(1) have q': "q' = [client5, client4, client1]" by (simp add: s q)
  have i: "map item_client (page_items r) = [client4]" using r(3) by (simp add: q')
  have l: "length (page_items r) \<le> 1" using r(4) by simp
  have tot: "total r = 3" using r(7) by (simp add: q')
  have ex: "\<exists>r. list_clients demo_db alice page_2_of_1 demo_now = Inr r \<and>
        map item_client (page_items r) = [client4] \<and> length (page_items r) \<le> 1 \<and>
        page r = 2 \<and> per_page r = 1 \<and> total r = 3"
    using r(2) i l r(5,6) tot by (intro exI [of _ r] conjI)
  have p: "page_2_of_1 ''page'' = Some ''2''" "py_int ''2'' = Inr 2"
    "page_2_of_1 ''per_page'' = Some ''1''" "py_int ''1'' = Inr 1"
    "page_2_of_1 ''activity_filter'' = None" "(2 - 1) * 1 \<le> int64_max"
    by (simp_all add: page_2_of_1_def py_int_1 py_int_2 int64_max_def)
  from p abc [THEN conjunct1] abc [THEN conjunct2] e ex show ?thesis by (intro conjI)
qed

text \<open>
  C7. The claim: an assignment to a valid, active user of the tenant succeeds also when
  the notification fails. \<^verbatim>\<open>assign_lead\<close> does so: it catches the exception of the
  notification and commits (\<open>assign_lead_any_delivery\<close>). \<^verbatim>\<open>assign_client\<close> awaits the
  notification with no handler before the commit: with a notification that raises, the
  assignment of \<open>client1\<close> to bob by an admin ends in the exception and the store is as
  before, while the same request with a notification that is delivered succeeds, and the
  same assignment of \<open>lead7\<close> succeeds and is stored.
\<close>

theorem assign_client_notification_failure:
  "assign_client (\<lambda>n. Fails) demo_db root 1 (Some 2) demo_now =
     (Inl (Raised NotificationError), demo_db) \<and>
   fst (assign_client (\<lambda>n. Delivered) demo_db root 1 (Some 2) demo_now) =
     Inr ''Client assigned successfully'' \<and>
   fst (assign_lead (\<lambda>n. Fails) demo_db root 7 (Some 2) demo_now) =
     Inr ''Lead assigned successfully'' \<and>
   map assigned_to (leads (snd (assign_lead (\<lambda>n. Fails) demo_db root 7 (Some 2) demo_now))) =
     [Some 2, None, None]"
  by (simp add: assign_client_def assign_lead_def valid_assignee_def first_def truthy_id_def
      user_of_def commit_row_def Let_def
      demo_db_def client1_def client2_def client3_def client4_def client5_def lead7_def lead8_def lead9_def
      alice_def bob_def root_def carol_def dave_def)



text \<open>
  C9. For every Lead update that reaches the lead (the caller is its creator or assignee,
  in its tenant, and the lead is not soft-deleted): setting \<open>lead_status\<close> to \<open>converted\<close>
  when the stored status is not \<open>converted\<close> stores the current time in \<open>converted_on\<close>;
  setting it to \<open>converted\<close> when the lead is already \<open>converted\<close> leaves \<open>converted_on\<close>
  as it was. In both cases the update succeeds, the row is still in the table and its
  status is \<open>converted\<close>.
\<close>

theorem update_lead_converted_on:
  assumes pk: "distinct (map ent_id (leads d))"
    and l_in: "l \<in> set (leads d)"
    and mine: "tenant_id l = user_tenant_id u" "creator_or_assignee u l" "deleted_at l = None"
    and conv: "data ''lead_status'' = Some (JStr ''converted'')"
  shows "fst (update_lead d u (ent_id l) data now) = Inr (ent_id l) \<and>
         (\<exists>r \<in> set (leads (snd (update_lead d u (ent_id l) data now))). ent_id r = ent_id l) \<and>
         (\<forall>r \<in> set (leads (snd (update_lead d u (ent_id l) data now))).
            ent_id r = ent_id l \<longrightarrow>
              lead_status r = Some ''converted'' \<and>
              converted_on r = (if lead_status l \<noteq> Some ''converted'' then Some now
                                else converted_on l))"
proof (intro conjI)
  let ?l' = "apply_lead_update u data now l"
  let ?d' = "snd (update_lead d u (ent_id l) data now)"
  have "first (filter (\<lambda>x. ent_id x = ent_id l \<and> (tenant_id x = user_tenant_id u \<and>
                creator_or_assignee u x \<and> deleted_at x = None)) (leads d)) = Some l"
    using first_by_key [OF pk l_in] mine by simp
  then have res: "update_lead d u (ent_id l) data now =
               (Inr (ent_id l), d\<lparr>leads := commit_row ?l' (leads d)\<rparr>)"
    by (simp add: update_lead_def Let_def apply_lead_update_id)
  show "fst (update_lead d u (ent_id l) data now) = Inr (ent_id l)"
    by (simp add: res)
  have "?l' \<in> set (commit_row ?l' (leads d))"
    using l_in by (rule commit_row_present) (simp add: apply_lead_update_id)
  then have "?l' \<in> set (leads ?d')"
    by (simp add: res)
  moreover have "ent_id ?l' = ent_id l"
    by (simp add: apply_lead_update_id)
  ultimately show "\<exists>r \<in> set (leads ?d'). ent_id r = ent_id l"
    by (rule rev_bexI)
  show "\<forall>r \<in> set (leads ?d'). ent_id r = ent_id l \<longrightarrow>
           lead_status r = Some ''converted'' \<and>
           converted_on r = (if lead_status l \<noteq> Some ''converted'' then Some now
                             else converted_on l)"
  proof (intro ballI impI)
    fix r
    assume r_in: "r \<in> set (leads ?d')" and r_id: "ent_id r = ent_id l"
    from r_in have "r \<in> set (commit_row ?l' (leads d))" by (simp add: res)
    then have "r = ?l'"
      by (rule commit_row_member) (simp add: r_id apply_lead_update_id)
    then show "lead_status r = Some ''converted'' \<and>
           converted_on r = (if lead_status l \<noteq> Some ''converted'' then Some now
                             else converted_on l)"
      using apply_lead_update_converted [where data = data and u = u and now = now and l = l] conv
      by simp
  qed
qed

theorem update_lead_converted_on_witness:
  "distinct (map ent_id (leads demo_db)) \<and> lead7 \<in> set (leads demo_db) \<and>
   lead8 \<in> set (leads demo_db) \<and> creator_or_assignee alice lead7 \<and>
   creator_or_assignee alice lead8 \<and>
   lead_status lead7 = Some ''open'' \<and> lead_status lead8 = Some ''converted'' \<and>
   fst (update_lead demo_db alice 7 to_converted 1000) = Inr 7 \<and>
   (\<exists>r \<in> set (leads (snd (update_lead demo_db alice 7 to_converted 1000))).
        ent_id r = 7 \<and> lead_status r = Some ''converted'' \<and> converted_on r = Some 1000) \<and>
   (\<exists>r \<in> set (leads (snd (update_lead demo_db alice 8 to_converted 1000))).
        ent_id r = 8 \<and> lead_status r = Some ''converted'' \<and> converted_on r = Some 500)"
proof -
  have pk: "distinct (map ent_id (leads demo_db))"
    and in7: "lead7 \<in> set (leads demo_db)" and in8: "lead8 \<in> set (leads demo_db)"
    by (simp_all add: demo_db_def lead7_def lead8_def lead9_def)
  have own: "creator_or_assignee alice lead7" "creator_or_assignee alice lead8"
    and ten: "tenant_id lead7 = user_tenant_id alice" "tenant_id lead8 = user_tenant_id alice"
    and live: "deleted_at lead7 = None" "deleted_at lead8 = None"
    and st: "lead_status lead7 = Some ''open''" "lead_status lead8 = Some ''converted''"
    and ids: "ent_id lead7 = 7" "ent_id lead8 = 8" "converted_on lead8 = Some 500"
    by (simp_all add: lead7_def lead8_def lead9_def alice_def creator_or_assignee_def)
  have conv: "to_converted ''lead_status'' = Some (JStr ''converted'')"
    by (simp add: to_converted_def)
  note a = update_lead_converted_on [where data = to_converted and now = 1000,
      OF pk in7 ten(1) own(1) live(1) conv, unfolded ids st]
  note b = update_lead_converted_on [where data = to_converted and now = 1000,
      OF pk in8 ten(2) own(2) live(2) conv, unfolded ids st]
  from a have "\<exists>r \<in> set (leads (snd (update_lead demo_db alice 7 to_converted 1000))).
        ent_id r = 7 \<and> lead_status r = Some ''converted'' \<and> converted_on r = Some 1000"
    by auto
  moreover from b have "\<exists>r \<in> set (leads (snd (update_lead demo_db alice 8 to_converted 1000))).
        ent_id r = 8 \<and> lead_status r = Some ''converted'' \<and> converted_on r = Some 500"
    by auto
  ultimately show ?thesis
    using a pk in7 in8 own st by simp
qed

text \<open>
  C10. For every user (no role is asked for) and every Project of the user's tenant, the
  get, the update and the delete by id reach the project, whoever created it: the get
  returns it (and logs the view), the delete removes the row, and the update writes it,
  provided the date fields of the body are strings or empty (another value makes
  \<^verbatim>\<open>datetime.fromisoformat\<close> raise \<^verbatim>\<open>TypeError\<close>). The row that the update returns and
  stores has, in each of the seven plain fields, the value of the body when the body has
  the field and the old value otherwise; the status of the body when that is one of the
  status options; for each date field of the body the date parsed from it; and the id,
  tenant, creator and every other column of the old row. The theorem has no hypothesis on
  \<open>project_created_by\<close> or on the roles of the user.
\<close>

theorem project_by_id_tenant_only:
  assumes pk: "distinct (map project_id (projects d))"
    and p_in: "p \<in> set (projects d)"
    and ten: "project_tenant_id p = user_tenant_id u"
  shows "get_project d u (project_id p) =
           (Inr p, d\<lparr>activity_logs := activity_logs d @ [viewed u ''project'' (project_id p)]\<rparr>) \<and>
         delete_project d u (project_id p) =
           (Inr ''Project deleted'',
            d\<lparr>projects := filter (\<lambda>x. project_id x \<noteq> project_id p) (projects d)\<rparr>) \<and>
         p \<notin> set (projects (snd (delete_project d u (project_id p)))) \<and>
         ((\<forall>v. data ''project_start'' = Some v \<longrightarrow> \<not> truthy v \<or> (\<exists>s. v = JStr s)) \<and>
          (\<forall>v. data ''project_end'' = Some v \<longrightarrow> \<not> truthy v \<or> (\<exists>s. v = JStr s)) \<longrightarrow>
          (\<exists>p'. apply_project_update so fi data p = Inr p' \<and>
                 project_id p' = project_id p \<and>
                 project_tenant_id p' = project_tenant_id p \<and>
                 project_created_by p' = project_created_by p \<and>
                 (\<forall>f. project_cols p' f =
                        (if f \<in> set project_fields
                         then (case data f of Some v \<Rightarrow> v | None \<Rightarrow> project_cols p f)
                         else project_cols p f)) \<and>
                 project_status p' =
                   (case data ''project_status'' of
                      Some (JStr s) \<Rightarrow> if s \<in> set so then JStr s else project_status p
                    | _ \<Rightarrow> project_status p) \<and>
                 (case data ''project_start'' of
                    None \<Rightarrow> project_start p' = project_start p
                  | Some v \<Rightarrow> parse_date_with_default_time fi v = Inr (project_start p')) \<and>
                 (case data ''project_end'' of
                    None \<Rightarrow> project_end p' = project_end p
                  | Some v \<Rightarrow> parse_date_with_default_time fi v = Inr (project_end p')) \<and>
                 update_project so fi d u (project_id p) data =
                   (Inr p', d\<lparr>projects := map (\<lambda>x. if project_id x = project_id p then p' else x)
                                              (projects d)\<rparr>) \<and>
                 p' \<in> set (projects (snd (update_project so fi d u (project_id p) data)))))"
proof -
  have found: "first (filter (\<lambda>x. project_id x = project_id p \<and>
                  project_tenant_id x = user_tenant_id u) (projects d)) = Some p"
    using first_by_key [OF pk p_in, where P = "\<lambda>x. project_tenant_id x = user_tenant_id u"] ten
    by simp
  have g: "get_project d u (project_id p) =
           (Inr p, d\<lparr>activity_logs := activity_logs d @ [viewed u ''project'' (project_id p)]\<rparr>)"
    by (simp add: get_project_def found)
  have del: "delete_project d u (project_id p) =
           (Inr ''Project deleted'',
            d\<lparr>projects := filter (\<lambda>x. project_id x \<noteq> project_id p) (projects d)\<rparr>)"
    by (simp add: delete_project_def found)
  have gone: "p \<notin> set (projects (snd (delete_project d u (project_id p))))"
    by (simp add: del)
  have upd: "\<exists>p'. apply_project_update so fi data p = Inr p' \<and>
                 project_id p' = project_id p \<and>
                 project_tenant_id p' = project_tenant_id p \<and>
                 project_created_by p' = project_created_by p \<and>
                 (\<forall>f. project_cols p' f =
                        (if f \<in> set project_fields
                         then (case data f of Some v \<Rightarrow> v | None \<Rightarrow> project_cols p f)
                         else project_cols p f)) \<and>
                 project_status p' =
                   (case data ''project_status'' of
                      Some (JStr s) \<Rightarrow> if s \<in> set so then JStr s else project_status p
                    | _ \<Rightarrow> project_status p) \<and>
                 (case data ''project_start'' of
                    None \<Rightarrow> project_start p' = project_start p
                  | Some v \<Rightarrow> parse_date_with_default_time fi v = Inr (project_start p')) \<and>
                 (case data ''project_end'' of
                    None \<Rightarrow> project_end p' = project_end p
                  | Some v \<Rightarrow> parse_date_with_default_time fi v = Inr (project_end p')) \<and>
                 update_project so fi d u (project_id p) data =
                   (Inr p', d\<lparr>projects := map (\<lambda>x. if project_id x = project_id p then p' else x)
                                              (projects d)\<rparr>) \<and>
                 p' \<in> set (projects (snd (update_project so fi d u (project_id p) data)))"
    if typed: "(\<forall>v. data ''project_start'' = Some v \<longrightarrow> \<not> truthy v \<or> (\<exists>s. v = JStr s)) \<and>
          (\<forall>v. data ''project_end'' = Some v \<longrightarrow> \<not> truthy v \<or> (\<exists>s. v = JStr s))"
  proof -
    from typed obtain p' where p': "apply_project_update so fi data p = Inr p'"
      using apply_project_update_typed [where data = data and so = so and fi = fi and p = p]
      by blast
    have id': "project_id p' = project_id p"
      using p' by (rule apply_project_update_id)
    note fields = apply_project_update_fields [OF p']
    have cols: "\<forall>f. project_cols p' f =
                        (if f \<in> set project_fields
                         then (case data f of Some v \<Rightarrow> v | None \<Rightarrow> project_cols p f)
                         else project_cols p f)"
      using fields(3) by (rule allI)
    have res: "update_project so fi d u (project_id p) data =
                   (Inr p', d\<lparr>projects := map (\<lambda>x. if project_id x = project_id p then p' else x)
                                              (projects d)\<rparr>)"
      by (simp add: update_project_def found p' id')
    have "p' \<in> set (map (\<lambda>x. if project_id x = project_id p then p' else x) (projects d))"
      using p_in by force
    then have mem: "p' \<in> set (projects (snd (update_project so fi d u (project_id p) data)))"
      by (simp add: res)
    from p' id' fields(1,2) cols fields(4,5,6) res mem show ?thesis
      by (intro exI [of _ p'] conjI)
  qed
  from g del gone upd show ?thesis by (intro conjI impI)
qed

theorem project_by_id_tenant_only_witness:
  "distinct (map project_id (projects demo_db)) \<and> project1 \<in> set (projects demo_db) \<and>
   project_tenant_id project1 = user_tenant_id bob \<and>
   project_created_by project1 \<noteq> user_id bob \<and> \<not> is_admin bob \<and>
   fst (get_project demo_db bob 1) = Inr project1 \<and>
   fst (delete_project demo_db bob 1) = Inr ''Project deleted'' \<and>
   project1 \<notin> set (projects (snd (delete_project demo_db bob 1))) \<and>
   project_cols project1 ''project_name'' = JNull \<and> project_start project1 = None \<and>
   (\<exists>p'. update_project [''pending''] demo_fromisoformat demo_db bob 1 rename_project =
            (Inr p', demo_db\<lparr>projects := [p']\<rparr>) \<and>
          project_id p' = 1 \<and>
          project_cols p' ''project_name'' = JStr ''Renamed'' \<and>
          project_cols p' ''notes'' = JNull \<and>
          project_status p' = JStr ''pending'' \<and>
          project_start p' = Some 1735689600 \<and>
          project_end p' = None \<and>
          project_created_by p' = user_id alice)"
proof -
  have pk: "distinct (map project_id (projects demo_db))"
    and p_in: "project1 \<in> set (projects demo_db)"
    and ps: "projects demo_db = [project1]"
    by (simp_all add: demo_db_def)
  have ten: "project_tenant_id project1 = user_tenant_id bob"
    and other: "project_created_by project1 \<noteq> user_id bob" "\<not> is_admin bob"
    and pid: "project_id project1 = 1"
    and old: "project_cols project1 ''project_name'' = JNull" "project_start project1 = None"
      "project_cols project1 ''notes'' = JNull" "project_status project1 = JStr ''pending''"
      "project_end project1 = None" "project_created_by project1 = user_id alice"
    by (simp_all add: project1_def bob_def alice_def is_admin_def no_cols_def)
  have typed: "(\<forall>v. rename_project ''project_start'' = Some v \<longrightarrow> \<not> truthy v \<or> (\<exists>s. v = JStr s)) \<and>
          (\<forall>v. rename_project ''project_end'' = Some v \<longrightarrow> \<not> truthy v \<or> (\<exists>s. v = JStr s))"
    by (simp add: rename_project_def)
  have body: "rename_project ''project_name'' = Some (JStr ''Renamed'')"
    "rename_project ''notes'' = None" "rename_project ''project_status'' = None"
    "rename_project ''project_start'' = Some (JStr ''2025-01-01'')"
    "rename_project ''project_end'' = None"
    by (simp_all add: rename_project_def)
  have date: "parse_date_with_default_time demo_fromisoformat (JStr ''2025-01-01'') =
                Inr (Some 1735689600)"
    by (simp add: parse_date_with_default_time_def demo_fromisoformat_def)
  have fs: "''project_name'' \<in> set project_fields" "''notes'' \<in> set project_fields"
    by (simp_all add: project_fields_def)
  note t = project_by_id_tenant_only [where data = rename_project and so = "[''pending'']"
      and fi = demo_fromisoformat, OF pk p_in ten, unfolded pid]
  from t [THEN conjunct2, THEN conjunct2, THEN conjunct2, THEN mp, OF typed]
  obtain p' where p': "project_id p' = 1"
    "project_created_by p' = project_created_by project1"
    "\<forall>f. project_cols p' f =
          (if f \<in> set project_fields
           then (case rename_project f of Some v \<Rightarrow> v | None \<Rightarrow> project_cols project1 f)
           else project_cols project1 f)"
    "project_status p' =
       (case rename_project ''project_status'' of
          Some (JStr s) \<Rightarrow> if s \<in> set [''pending''] then JStr s else project_status project1
        | _ \<Rightarrow> project_status project1)"
    "(case rename_project ''project_start'' of
        None \<Rightarrow> project_start p' = project_start project1
      | Some v \<Rightarrow> parse_date_with_default_time demo_fromisoformat v = Inr (project_start p'))"
    "(case rename_project ''project_end'' of
        None \<Rightarrow> project_end p' = project_end project1
      | Some v \<Rightarrow> parse_date_with_default_time demo_fromisoformat v = Inr (project_end p'))"
    "update_project [''pending''] demo_fromisoformat demo_db bob 1 rename_project =
       (Inr p', demo_db\<lparr>projects := map (\<lambda>x. if project_id x = 1 then p' else x)
                                          (projects demo_db)\<rparr>)"
    by (elim exE conjE)
  have u: "update_project [''pending''] demo_fromisoformat demo_db bob 1 rename_project =
            (Inr p', demo_db\<lparr>projects := [p']\<rparr>)"
    using p'(7) by (simp add: ps pid)
  have n: "project_cols p' ''project_name'' = JStr ''Renamed''"
    using p'(3) [THEN spec, of "''project_name''"] by (simp add: fs body)
  have no: "project_cols p' ''notes'' = JNull"
    using p'(3) [THEN spec, of "''notes''"] by (simp add: fs body old)
  have st: "project_status p' = JStr ''pending''"
    using p'(4) by (simp add: body old)
  have s: "project_start p' = Some 1735689600"
    using p'(5) by (simp add: body date)
  have e: "project_end p' = None"
    using p'(6) by (simp add: body old)
  have c: "project_created_by p' = user_id alice"
    using p'(2) by (simp add: old)
  have ex: "\<exists>p'. update_project [''pending''] demo_fromisoformat demo_db bob 1 rename_project =
            (Inr p', demo_db\<lparr>projects := [p']\<rparr>) \<and>
          project_id p' = 1 \<and>
          project_cols p' ''project_name'' = JStr ''Renamed'' \<and>
          project_cols p' ''notes'' = JNull \<and>
          project_status p' = JStr ''pending'' \<and>
          project_start p' = Some 1735689600 \<and>
          project_end p' = None \<and>
          project_created_by p' = user_id alice"
    using u p'(1) n no st s e c by (intro exI [of _ p'] conjI)
  from t have g: "fst (get_project demo_db bob 1) = Inr project1"
    "fst (delete_project demo_db bob 1) = Inr ''Project deleted''"
    "project1 \<notin> set (projects (snd (delete_project demo_db bob 1)))"
    by (simp_all add: pid)
  from pk p_in ten other g old(1,2) ex show ?thesis by (intro conjI)
qed

end
